theory Spec2Isabelle
  imports Complex_Main
begin

section \<open>Emotion detector dashboard (main.py): data model\<close>

text \<open>
  The script of \<^verbatim>\<open>main.py\<close> is embedded function by function. Conventions:
  \<^item> a Python \<^verbatim>\<open>str\<close> is the \<open>string\<close> of its UTF-8 encoding (an emoji is four
    characters here); \<^verbatim>\<open>bytes\<close> are character lists too;
  \<^item> a Python \<^verbatim>\<open>float\<close> is the \<open>real\<close> it denotes. The product \<^verbatim>\<open>conf *= 100\<close> is rounded to
    the nearest double (\<open>float_mul\<close>), so that the comparison with the threshold sees
    the number the script sees. The result of \<^verbatim>\<open>round(conf, 2)\<close> is read as the decimal
    with two places that it prints as. There is no NaN, no infinity and no overflow;
  \<^item> a dictionary whose iteration order matters (the detector's emotion scores) is an
    association list in insertion order;
  \<^item> an exception is a value \<open>Inl x\<close> of a sum type;
  \<^item> everything the script does to the outside (camera, clock, page, file system) is a
    field of the record \<open>world\<close>, passed through every function;
  \<^item> what the outside does to the script (codec, detector, camera frames, the passing of
    time, the calendar) is the record \<open>env\<close>.

  Embedded are \<^verbatim>\<open>get_message\<close>, \<^verbatim>\<open>analyze_emotions\<close>, \<^verbatim>\<open>display_cards\<close> and the blocks of the
  Capture, Live and Home tabs, each as a function of whether its button was pressed.
  The page set-up, the choice of the tab, the Upload tab and the placeholders
  \<^verbatim>\<open>st.empty()\<close> of the Live tab are left out.
\<close>

type_synonym bytes = "char list"

datatype font = FONT_HERSHEY_SIMPLEX

datatype draw_op =
    Rectangle "int \<times> int" "int \<times> int" "nat \<times> nat \<times> nat" nat
  | PutText string "int \<times> int" font real "nat \<times> nat \<times> nat" nat

text \<open>A decoded frame: its pixel data, which the script never inspects, and what
  \<^verbatim>\<open>cv2.rectangle\<close> and \<^verbatim>\<open>cv2.putText\<close> have drawn on it, in drawing order.\<close>

record frame =
  pixels :: bytes
  drawn :: "draw_op list"

text \<open>One element of the detector's output: \<^verbatim>\<open>{"box": (x, y, w, h), "emotions": {...}}\<close>.\<close>

record detection =
  box :: "int \<times> int \<times> int \<times> int"
  emotions :: "(string \<times> real) list"

text \<open>The dictionaries built by \<^verbatim>\<open>analyze_emotions\<close>: a card, and a history entry.\<close>

record face_card =
  index :: nat
  emotion :: string
  confidence :: real
  message :: string

record history_entry =
  timestamp :: string
  face :: nat
  emotion :: string
  confidence :: real

datatype exn = ValueError | LibraryError string

record datetime =
  year :: nat
  month :: nat
  day :: nat
  hour :: nat
  minute :: nat
  second :: nat
  microsecond :: nat

text \<open>Effects on the page, the camera and the process, in the order they happen.\<close>

datatype event =
    CamOpen
  | CamRead bool
  | CamRelease
  | Sleep nat
  | DestroyAllWindows
  | Subheader string
  | Markdown string bool
  | Card string string string
  | Image "frame option"
  | Error string
  | Success string

record env =
  imdecode :: "bytes \<Rightarrow> frame option"
  imencode :: "frame \<Rightarrow> bytes"
  detect_emotions :: "frame option \<Rightarrow> exn + detection list"
  camera :: "nat \<Rightarrow> frame option"
  elapse :: "nat \<Rightarrow> nat"
  calendar :: "nat \<Rightarrow> datetime"

text \<open>
  \<open>imdecode\<close> is \<^verbatim>\<open>cv2.imdecode\<close> (\<open>None\<close> when the bytes are no image),
  \<open>detect_emotions\<close> the method of the \<^verbatim>\<open>FER\<close> detector, \<open>camera k\<close> the result of the
  \<open>k\<close>-th \<^verbatim>\<open>cap.read()\<close> of the session (\<open>None\<close> when \<^verbatim>\<open>ret\<close> is false),
  \<open>elapse k\<close> the microseconds that pass before the \<open>k\<close>-th operation that looks at
  the clock, and \<open>calendar\<close> the local date and time of an instant.
\<close>

record world =
  history :: "history_entry list"
  clock :: nat
  ticks :: nat
  reads :: nat
  trace :: "event list"
  files :: "string \<rightharpoonup> string"

section \<open>Library functions the script calls\<close>

subsection \<open>Numbers as text\<close>

definition digit_char :: "nat \<Rightarrow> char" where
  "digit_char d =
     (if d = 0 then CHR ''0'' else if d = 1 then CHR ''1'' else if d = 2 then CHR ''2''
      else if d = 3 then CHR ''3'' else if d = 4 then CHR ''4'' else if d = 5 then CHR ''5''
      else if d = 6 then CHR ''6'' else if d = 7 then CHR ''7'' else if d = 8 then CHR ''8''
      else CHR ''9'')"

fun show_nat :: "nat \<Rightarrow> string" where
  "show_nat n =
     (if n < 10 then [digit_char n] else show_nat (n div 10) @ [digit_char (n mod 10)])"

declare show_nat.simps [simp del]

definition show_int :: "int \<Rightarrow> string" where
  "show_int i = (if i < 0 then ''-'' @ show_nat (nat (- i)) else show_nat (nat i))"

text \<open>Two digits with a leading zero, as \<^verbatim>\<open>%m %d %H %M %S\<close> print.\<close>

definition pad2 :: "nat \<Rightarrow> string" where
  "pad2 n = [digit_char (n div 10 mod 10), digit_char (n mod 10)]"

text \<open>Rounding to the nearest integer, ties to the even one: the rounding of
  \<^verbatim>\<open>round(x, n)\<close> and of the format \<^verbatim>\<open>:.1f\<close>.\<close>

definition round_half_even :: "real \<Rightarrow> int" where
  "round_half_even r =
     (let f = \<lfloor>r\<rfloor>; d = r - of_int f
      in if d < 1 / 2 then f else if 1 / 2 < d then f + 1 else if even f then f else f + 1)"

definition py_round2 :: "real \<Rightarrow> real" where
  "py_round2 x = of_int (round_half_even (x * 100)) / 100"

text \<open>\<^verbatim>\<open>int(x)\<close> of a float truncates towards zero.\<close>

definition py_int :: "real \<Rightarrow> int" where
  "py_int x = (if 0 \<le> x then \<lfloor>x\<rfloor> else \<lceil>x\<rceil>)"

text \<open>The format \<^verbatim>\<open>{x:.1f}\<close>.\<close>

definition fmt_1f :: "real \<Rightarrow> string" where
  "fmt_1f x =
     (let n = nat (round_half_even (\<bar>x\<bar> * 10))
      in (if x < 0 then ''-'' else []) @ show_nat (n div 10) @ ''.'' @ [digit_char (n mod 10)])"

subsection \<open>Floating-point multiplication\<close>

text \<open>
  A Python \<^verbatim>\<open>float\<close> is an IEEE 754 double: 53 significant bits, exponents from
  \<open>-1022\<close> up. \<open>bit_length n\<close> is the number of binary digits of \<open>n\<close>,
  \<open>float_exponent x\<close> the \<open>e\<close> with \<open>2 ^ e \<le> \<bar>x\<bar> < 2 ^ (e + 1)\<close>, and \<open>round_double x\<close> the
  multiple of the unit in the last place \<open>2 ^ (e - 52)\<close> nearest to \<open>x\<close>, ties to the even
  multiple: the double that a literal or an operation with the exact value \<open>x\<close> yields.
  \<open>float_mul\<close> is the product of two doubles. Results beyond the largest double are
  not modelled.
\<close>

fun bit_length :: "nat \<Rightarrow> nat" where
  "bit_length n = (if n = 0 then 0 else Suc (bit_length (n div 2)))"

declare bit_length.simps [simp del]

definition float_exponent :: "real \<Rightarrow> int" where
  "float_exponent x =
     (if 1 \<le> \<bar>x\<bar> then int (bit_length (nat \<lfloor>\<bar>x\<bar>\<rfloor>)) - 1
      else - int (bit_length (nat (\<lceil>1 / \<bar>x\<bar>\<rceil> - 1))))"

definition round_double :: "real \<Rightarrow> real" where
  "round_double x =
     (let e = max (float_exponent x) (- 1022);
          ulp = (if 52 \<le> e then 2 ^ nat (e - 52) else 1 / 2 ^ nat (52 - e))
      in of_int (round_half_even (x / ulp)) * ulp)"

definition float_mul :: "real \<Rightarrow> real \<Rightarrow> real" where
  "float_mul x y = round_double (x * y)"

subsection \<open>Strings\<close>

text \<open>\<^verbatim>\<open>str.capitalize\<close> on the ASCII letters; other characters are left alone.\<close>

definition upper_char :: "char \<Rightarrow> char" where
  "upper_char c =
     (case map_of (zip ''abcdefghijklmnopqrstuvwxyz'' ''ABCDEFGHIJKLMNOPQRSTUVWXYZ'') c of
        Some u \<Rightarrow> u
      | None \<Rightarrow> c)"

definition lower_char :: "char \<Rightarrow> char" where
  "lower_char c =
     (case map_of (zip ''ABCDEFGHIJKLMNOPQRSTUVWXYZ'' ''abcdefghijklmnopqrstuvwxyz'') c of
        Some l \<Rightarrow> l
      | None \<Rightarrow> c)"

fun capitalize :: "string \<Rightarrow> string" where
  "capitalize [] = []"
| "capitalize (c # cs) = upper_char c # map lower_char cs"

subsection \<open>The clock\<close>

text \<open>Time passes before every look at the clock; sleeping adds the seconds asked for.\<close>

definition tick :: "env \<Rightarrow> world \<Rightarrow> world" where
  "tick e w = w\<lparr>clock := clock w + elapse e (ticks w), ticks := Suc (ticks w)\<rparr>"

definition datetime_now :: "env \<Rightarrow> world \<Rightarrow> datetime \<times> world" where
  "datetime_now e w = (let w' = tick e w in (calendar e (clock w'), w'))"

definition time_time :: "env \<Rightarrow> world \<Rightarrow> real \<times> world" where
  "time_time e w = (let w' = tick e w in (real (clock w') / 1000000, w'))"

definition time_sleep :: "env \<Rightarrow> nat \<Rightarrow> world \<Rightarrow> world" where
  "time_sleep e secs w =
     (let w' = tick e w
      in w'\<lparr>clock := clock w' + secs * 1000000, trace := trace w' @ [Sleep secs]\<rparr>)"

text \<open>\<^verbatim>\<open>strftime("%Y-%m-%d %H:%M:%S")\<close>. The year is printed without padding, as the C
  library does; the text has four year digits for the years 1000 to 9999.\<close>

definition strftime :: "datetime \<Rightarrow> string" where
  "strftime d =
     show_nat (year d) @ ''-'' @ pad2 (month d) @ ''-'' @ pad2 (day d) @ '' '' @
     pad2 (hour d) @ '':'' @ pad2 (minute d) @ '':'' @ pad2 (second d)"

subsection \<open>Drawing and the maximum of a dictionary\<close>

definition cv2_rectangle ::
  "frame \<Rightarrow> int \<times> int \<Rightarrow> int \<times> int \<Rightarrow> nat \<times> nat \<times> nat \<Rightarrow> nat \<Rightarrow> frame" where
  "cv2_rectangle f p q colour thickness =
     f\<lparr>drawn := drawn f @ [Rectangle p q colour thickness]\<rparr>"

definition cv2_putText ::
  "frame \<Rightarrow> string \<Rightarrow> int \<times> int \<Rightarrow> font \<Rightarrow> real \<Rightarrow> nat \<times> nat \<times> nat \<Rightarrow> nat \<Rightarrow> frame" where
  "cv2_putText f txt org fnt scale colour thickness =
     f\<lparr>drawn := drawn f @ [PutText txt org fnt scale colour thickness]\<rparr>"

text \<open>\<^verbatim>\<open>max(emotions.items(), key=lambda x: x[1])\<close>: the first item with the greatest
  value; \<^verbatim>\<open>ValueError\<close> on an empty dictionary.\<close>

fun max_from :: "string \<times> real \<Rightarrow> (string \<times> real) list \<Rightarrow> string \<times> real" where
  "max_from best [] = best"
| "max_from best (x # xs) = max_from (if snd best < snd x then x else best) xs"

fun py_max :: "(string \<times> real) list \<Rightarrow> exn + string \<times> real" where
  "py_max [] = Inl ValueError"
| "py_max (x # xs) = Inr (max_from x xs)"

section \<open>The script\<close>

subsection \<open>get_message\<close>

definition messages :: "(string \<times> string) list" where
  "messages =
    [(''happy'', [CHR 0xF0, CHR 0x9F, CHR 0x98, CHR 0x8A] @ '' You're radiating joy!''),
     (''sad'', [CHR 0xF0, CHR 0x9F, CHR 0x98, CHR 0xA2] @ '' It's okay to feel down sometimes.''),
     (''angry'', [CHR 0xF0, CHR 0x9F, CHR 0x98, CHR 0xA0] @ '' Breathe deep. You're strong.''),
     (''fear'', [CHR 0xF0, CHR 0x9F, CHR 0x98, CHR 0xA8] @ '' You're safe and supported.''),
     (''surprise'', [CHR 0xF0, CHR 0x9F, CHR 0x98, CHR 0xAE] @ '' Something unexpected?''),
     (''neutral'', [CHR 0xF0, CHR 0x9F, CHR 0x98, CHR 0x90] @ '' Steady and balanced.''),
     (''disgust'', [CHR 0xF0, CHR 0x9F, CHR 0x98, CHR 0x96] @ '' Something doesn't feel right.'')]"

definition get_message :: "string \<Rightarrow> string" where
  "get_message emotion' =
     (case map_of messages emotion' of
        Some m \<Rightarrow> m
      | None \<Rightarrow> [CHR 0xF0, CHR 0x9F, CHR 0x98, CHR 0x90] @ '' You seem '' @ emotion' @ ''.'')"

subsection \<open>analyze_emotions\<close>

text \<open>The body of the \<^verbatim>\<open>for\<close> loop, run on the rest of \<^verbatim>\<open>enumerate(results)\<close>; the
  accumulated \<^verbatim>\<open>cards\<close>, the frame and the world are threaded through. An exception
  leaves the loop at once, with the history entries appended so far.\<close>

fun analyze_loop ::
  "env \<Rightarrow> real \<Rightarrow> (nat \<times> detection) list \<Rightarrow> face_card list \<Rightarrow> frame option \<Rightarrow> world
     \<Rightarrow> (exn + face_card list \<times> frame option) \<times> world" where
  "analyze_loop e threshold [] cards fr w = (Inr (cards, fr), w)"
| "analyze_loop e threshold ((i, result) # rest) cards fr w =
     (case py_max (emotions result) of
        Inl x \<Rightarrow> (Inl x, w)
      | Inr (mood, p) \<Rightarrow>
          (let conf = float_mul p 100
           in if conf < threshold then analyze_loop e threshold rest cards fr w
              else
                (let (now, w1) = datetime_now e w;
                     w2 = w1\<lparr>history := history w1 @
                            [\<lparr>timestamp = strftime now, face = i + 1, emotion = mood,
                              confidence = py_round2 conf\<rparr>]\<rparr>;
                     fr' = (case fr of
                              None \<Rightarrow> None
                            | Some f \<Rightarrow>
                                (case box result of (x, y, bw, bh) \<Rightarrow>
                                   Some (cv2_putText
                                     (cv2_rectangle f (x, y) (x + bw, y + bh) (0, 255, 0) 2)
                                     (capitalize mood @ '' ('' @ fmt_1f conf @ ''%)'')
                                     (x, y - 10) FONT_HERSHEY_SIMPLEX (6 / 10) (255, 255, 255) 2)))
                 in analyze_loop e threshold rest
                      (cards @ [\<lparr>index = i + 1, emotion = mood, confidence = conf,
                                 message = get_message mood\<rparr>])
                      fr' w2)))"

definition analyze_emotions ::
  "env \<Rightarrow> bytes \<Rightarrow> frame option \<Rightarrow> real \<Rightarrow> world
     \<Rightarrow> (exn + face_card list \<times> frame option) \<times> world" where
  "analyze_emotions e image_bytes fr threshold w =
     (let img = imdecode e image_bytes
      in case detect_emotions e img of
           Inl x \<Rightarrow> (Inl x, w)
         | Inr results \<Rightarrow> analyze_loop e threshold (enumerate 0 results) [] fr w)"

definition default_threshold :: real where
  "default_threshold = 50"

subsection \<open>display_cards\<close>

definition st_event :: "event \<Rightarrow> world \<Rightarrow> world" where
  "st_event ev w = w\<lparr>trace := trace w @ [ev]\<rparr>"

text \<open>The width of the bar, in percent: \<^verbatim>\<open>int(c['confidence'])\<close>.\<close>

definition bar_width :: "face_card \<Rightarrow> int" where
  "bar_width c = py_int (face_card.confidence c)"

definition confidence_bar :: "face_card \<Rightarrow> string" where
  "confidence_bar c =
     [CHR 0x0A] @ replicate 12 (CHR '' '') @
     ''<div style='background:#eee;border-radius:6px;overflow:hidden;width:100%;'>'' @
     [CHR 0x0A] @ replicate 14 (CHR '' '') @
     ''<div style='background:#90caf9;width:'' @ show_int (bar_width c) @
     ''%;padding:6px;color:black;text-align:center;'>'' @
     [CHR 0x0A] @ replicate 16 (CHR '' '') @
     ''Confidence: '' @ fmt_1f (face_card.confidence c) @ ''%'' @
     [CHR 0x0A] @ replicate 14 (CHR '' '') @ ''</div>'' @
     [CHR 0x0A] @ replicate 12 (CHR '' '') @ ''</div>'' @
     [CHR 0x0A] @ replicate 12 (CHR '' '')"

fun display_cards :: "face_card list \<Rightarrow> world \<Rightarrow> world" where
  "display_cards [] w = w"
| "display_cards (c # cards) w =
     display_cards cards
       (st_event (Card (''Face '' @ show_nat (index c)) (message c) ''ghost'')
         (st_event (Markdown (confidence_bar c) True)
           (st_event (Markdown (''**Emotion:** `'' @ capitalize (face_card.emotion c) @ ''`'') False)
             (st_event (Markdown ''---'' False) w))))"

subsection \<open>Texts on the page\<close>

definition capture_title :: string where
  "capture_title = [CHR 0xF0, CHR 0x9F, CHR 0x93, CHR 0xB7] @ '' Capture Image''"

definition live_title :: string where
  "live_title = [CHR 0xF0, CHR 0x9F, CHR 0x8E, CHR 0xA5] @ '' Live Webcam Feed (60 sec)''"

definition live_ended :: string where
  "live_ended = [CHR 0xE2, CHR 0x9C, CHR 0x85] @ '' Live analysis ended.''"

subsection \<open>The Capture tab\<close>

text \<open>How a block of the script ends: it runs through, or an exception leaves it.\<close>

datatype outcome = Done | Uncaught exn

definition cap_read :: "env \<Rightarrow> world \<Rightarrow> frame option \<times> world" where
  "cap_read e w =
     (camera e (reads w),
      w\<lparr>reads := Suc (reads w), trace := trace w @ [CamRead (camera e (reads w) \<noteq> None)]\<rparr>)"

definition capture_tab :: "env \<Rightarrow> bool \<Rightarrow> world \<Rightarrow> outcome \<times> world" where
  "capture_tab e snap w =
     (let w0 = st_event (Subheader capture_title) w
      in if snap then
           (let w1 = st_event CamOpen w0;
                w2 = time_sleep e 1 w1;
                (r, w3) = cap_read e w2;
                w4 = st_event CamRelease w3
            in case r of
                 Some frame \<Rightarrow>
                   (let image_bytes = imencode e frame
                    in case analyze_emotions e image_bytes (Some frame) default_threshold w4 of
                         (Inl x, w5) \<Rightarrow> (Uncaught x, w5)
                       | (Inr (cards, annotated), w5) \<Rightarrow>
                           (Done, display_cards cards (st_event (Image annotated) w5)))
               | None \<Rightarrow> (Done, st_event (Error ''Failed to capture image.'') w4))
         else (Done, w0))"

subsection \<open>The Live tab\<close>

datatype loop_exit = BudgetExpired | ReadFailed | Raised exn

function live_loop :: "env \<Rightarrow> real \<Rightarrow> world \<Rightarrow> loop_exit \<times> world" where
  "live_loop e start w =
     (case time_time e w of (t, w1) \<Rightarrow>
        if t - start < 60 then
          (case cap_read e w1 of
             (None, w2) \<Rightarrow> (ReadFailed, st_event (Error ''Webcam error.'') w2)
           | (Some frame, w2) \<Rightarrow>
               (case analyze_emotions e (imencode e frame) (Some frame) default_threshold w2 of
                  (Inl x, w3) \<Rightarrow> (Raised x, w3)
                | (Inr (cards, annotated), w3) \<Rightarrow>
                    live_loop e start
                      (time_sleep e 5 (display_cards cards (st_event (Image annotated) w3)))))
        else (BudgetExpired, w1))"
  by pat_completeness auto
termination
proof -
  have loop_mono: "clock w \<le> clock w'"
    if "analyze_loop e thr xs cards fr w = (res, w')" for e thr xs cards fr w res w'
    using that
  proof (induction xs arbitrary: cards fr w)
    case Nil
    then show ?case by simp
  next
    case (Cons a xs)
    obtain i r where a: "a = (i, r)" by (cases a)
    show ?case
    proof (cases "py_max (emotions r)")
      case (Inl x)
      with Cons.prems a show ?thesis by simp
    next
      case (Inr mp)
      obtain mood p where mp: "mp = (mood, p)" by (cases mp)
      show ?thesis
      proof (cases "float_mul p 100 < thr")
        case True
        with Cons.prems a Inr mp show ?thesis by (simp add: Cons.IH)
      next
        case False
        with Cons.prems a Inr mp obtain cards2 fr2 h where
          "analyze_loop e thr xs cards2 fr2 ((tick e w)\<lparr>history := h\<rparr>) = (res, w')"
          by (simp add: Let_def datetime_now_def split: prod.splits)
        from Cons.IH[OF this] show ?thesis by (simp add: tick_def)
      qed
    qed
  qed
  have analyze_mono: "clock w \<le> clock w'"
    if "analyze_emotions e b fr thr w = (res, w')" for e b fr thr w res w'
    using that loop_mono
    by (cases "detect_emotions e (imdecode e b)") (auto simp: analyze_emotions_def)
  have display_clock: "clock (display_cards cards w) = clock w" for cards w
    by (induction cards arbitrary: w) (simp_all add: st_event_def)
  show ?thesis
  proof (relation "measure (\<lambda>(e, start, w). nat \<lceil>(start + 60) * 1000000\<rceil> - clock w)",
      goal_cases)
    case 1
    show ?case by simp
  next
    case (2 e start w t w1 r w2 frame res w3 b cards annotated)
    from 2(1) have w1: "clock w \<le> clock w1" and t: "t = real (clock w1) / 1000000"
      by (auto simp: time_time_def tick_def Let_def)
    from 2(3) have w2: "clock w2 = clock w1"
      by (auto simp: cap_read_def)
    from 2(5) have w3: "clock w2 \<le> clock w3"
      by (rule analyze_mono[OF sym])
    from t 2(2) have "real (clock w1) < (start + 60) * 1000000" by (simp add: field_simps)
    then have "clock w1 < nat \<lceil>(start + 60) * 1000000\<rceil>" by linarith
    moreover have "clock w1 <
        clock (time_sleep e 5 (display_cards cards (st_event (Image annotated) w3)))"
      using w2 w3 by (simp add: time_sleep_def tick_def Let_def display_clock st_event_def)
    ultimately show ?case using w1 by simp
  qed
qed


declare live_loop.simps [simp del]

definition live_tab :: "env \<Rightarrow> bool \<Rightarrow> world \<Rightarrow> outcome \<times> world" where
  "live_tab e start_live w =
     (let w0 = st_event (Subheader live_title) w
      in if start_live then
           (let w1 = st_event CamOpen w0;
                (start, w2) = time_time e w1
            in case live_loop e start w2 of
                 (ex, w3) \<Rightarrow>
                   (case ex of
                      Raised x \<Rightarrow> (Uncaught x, w3)
                    | _ \<Rightarrow>
                        (Done,
                         st_event (Success live_ended)
                           (st_event DestroyAllWindows (st_event CamRelease w3)))))
         else (Done, w0))"

subsection \<open>The Home tab and the export\<close>

text \<open>\<^verbatim>\<open>pd.DataFrame(...).to_csv(path, index=False)\<close> is the pandas library, modelled from its
  documented behaviour: the columns are the keys of the dictionaries in their order (all
  entries have the same four keys), one line per entry, cells joined by commas, a cell
  quoted when it holds a comma, a quote or a line break (quotes doubled), a line of one
  empty cell written as two quotes, lines ended by a line feed, the file replaced as a
  whole. A failing write is not modelled.\<close>

datatype cell = StrCell string | IntCell int | FloatCell real

record data_frame =
  columns :: "string list"
  rows :: "cell list list"

definition entry_items :: "history_entry \<Rightarrow> (string \<times> cell) list" where
  "entry_items h =
     [(''timestamp'', StrCell (timestamp h)), (''face'', IntCell (int (face h))),
      (''emotion'', StrCell (history_entry.emotion h)),
      (''confidence'', FloatCell (history_entry.confidence h))]"

definition DataFrame :: "history_entry list \<Rightarrow> data_frame" where
  "DataFrame hs =
     \<lparr>columns = (case hs of [] \<Rightarrow> [] | h # _ \<Rightarrow> map fst (entry_items h)),
      rows = map (\<lambda>h. map snd (entry_items h)) hs\<rparr>"

text \<open>The text of a float that is a whole number of hundredths below \<open>10\<^sup>1\<^sup>6\<close>, as every
  rounded confidence is: the digits, a point, and one or two decimals
  (\<^verbatim>\<open>82.0\<close>, \<^verbatim>\<open>82.5\<close>, \<^verbatim>\<open>82.57\<close>).\<close>

definition float_repr :: "real \<Rightarrow> string" where
  "float_repr x =
     (let n = nat \<lfloor>\<bar>x\<bar> * 100\<rfloor>; d1 = n mod 100 div 10; d2 = n mod 10
      in (if x < 0 then ''-'' else []) @ show_nat (n div 100) @ ''.'' @
         (if d2 = 0 then [digit_char d1] else [digit_char d1, digit_char d2]))"

fun cell_text :: "cell \<Rightarrow> string" where
  "cell_text (StrCell s) = s"
| "cell_text (IntCell i) = show_int i"
| "cell_text (FloatCell x) = float_repr x"

definition needs_quotes :: "string \<Rightarrow> bool" where
  "needs_quotes s = list_ex (\<lambda>c. c = CHR '','' \<or> c = CHR 0x22 \<or> c = CHR 0x0A \<or> c = CHR 0x0D) s"

definition csv_field :: "string \<Rightarrow> string" where
  "csv_field s =
     (if needs_quotes s
      then [CHR 0x22] @ concat (map (\<lambda>c. if c = CHR 0x22 then [c, c] else [c]) s) @ [CHR 0x22]
      else s)"

fun join_fields :: "string list \<Rightarrow> string" where
  "join_fields [] = []"
| "join_fields [f] = f"
| "join_fields (f # g # fs) = f @ '','' @ join_fields (g # fs)"

definition csv_line :: "string list \<Rightarrow> string" where
  "csv_line fs =
     (if fs = [[]] then [CHR 0x22, CHR 0x22] else join_fields (map csv_field fs)) @ [CHR 0x0A]"

definition to_csv_text :: "data_frame \<Rightarrow> string" where
  "to_csv_text df = csv_line (columns df) @ concat (map (\<lambda>r. csv_line (map cell_text r)) (rows df))"

definition to_csv :: "data_frame \<Rightarrow> string \<Rightarrow> world \<Rightarrow> world" where
  "to_csv df path w = w\<lparr>files := (files w)(path \<mapsto> to_csv_text df)\<rparr>"

definition home_tab :: "bool \<Rightarrow> world \<Rightarrow> world" where
  "home_tab export w =
     (let w1 = st_event (Markdown (''### '' @ [CHR 0xF0, CHR 0x9F, CHR 0xA7, CHR 0xAD] @ '' Dashboard'')
                          False) w;
          w2 = st_event (Markdown
                 ''Select a tab to analyze emotions via image, webcam capture, or live feed.''
                 False) w1
      in if length (history w2) > 0 then
           if export then
             (let df = DataFrame (history w2);
                  w3 = to_csv df ''emotion_history.csv'' w2
              in st_event (Success ([CHR 0xE2, CHR 0x9C, CHR 0x85] @
                                     '' Exported as emotion_history.csv'')) w3)
           else w2
         else w2)"

section \<open>Reading an export back\<close>

text \<open>A reader for the files above: \<open>parse_csv\<close> splits the text into lines of cells, at
  commas and line feeds outside quotes, a doubled quote inside quotes read as one;
  \<open>entry_of_row\<close> reads a line of four cells as a history entry, the face as a decimal
  number and the confidence as digits, a point and decimals.\<close>

datatype mode = FieldStart | Plain | Quoted | QuoteSeen

fun scan ::
  "mode \<Rightarrow> string \<Rightarrow> string list \<Rightarrow> string list list \<Rightarrow> string \<Rightarrow> string list list option" where
  "scan m f r rs [] = (if m = FieldStart \<and> r = [] then Some (rev rs) else None)"
| "scan FieldStart f r rs (c # cs) =
     (if c = CHR 0x22 then scan Quoted [] r rs cs
      else if c = CHR '','' then scan FieldStart [] ([] # r) rs cs
      else if c = CHR 0x0A then scan FieldStart [] [] (rev ([] # r) # rs) cs
      else scan Plain [c] r rs cs)"
| "scan Plain f r rs (c # cs) =
     (if c = CHR '','' then scan FieldStart [] (rev f # r) rs cs
      else if c = CHR 0x0A then scan FieldStart [] [] (rev (rev f # r) # rs) cs
      else scan Plain (c # f) r rs cs)"
| "scan Quoted f r rs (c # cs) =
     (if c = CHR 0x22 then scan QuoteSeen f r rs cs else scan Quoted (c # f) r rs cs)"
| "scan QuoteSeen f r rs (c # cs) =
     (if c = CHR 0x22 then scan Quoted (c # f) r rs cs
      else if c = CHR '','' then scan FieldStart [] (rev f # r) rs cs
      else if c = CHR 0x0A then scan FieldStart [] [] (rev (rev f # r) # rs) cs
      else None)"

definition parse_csv :: "string \<Rightarrow> string list list option" where
  "parse_csv s = scan FieldStart [] [] [] s"

definition digit_value :: "char \<Rightarrow> nat option" where
  "digit_value c = map_of (zip ''0123456789'' [0, 1, 2, 3, 4, 5, 6, 7, 8, 9]) c"

fun parse_digits :: "nat \<Rightarrow> string \<Rightarrow> nat option" where
  "parse_digits a [] = Some a"
| "parse_digits a (c # cs) =
     (case digit_value c of None \<Rightarrow> None | Some d \<Rightarrow> parse_digits (10 * a + d) cs)"

definition parse_nat :: "string \<Rightarrow> nat option" where
  "parse_nat s = (if s = [] then None else parse_digits 0 s)"

definition parse_decimal :: "string \<Rightarrow> real option" where
  "parse_decimal s =
     (let ip = takeWhile (\<lambda>c. c \<noteq> CHR ''.'') s; fp = drop (Suc (length ip)) s
      in case (parse_nat ip, parse_nat fp) of
           (Some i, Some f) \<Rightarrow> Some (real i + real f / 10 ^ length fp)
         | _ \<Rightarrow> None)"

definition entry_of_row :: "string list \<Rightarrow> history_entry option" where
  "entry_of_row r =
     (case r of
        [ts, fc, em, cf] \<Rightarrow>
          (case (parse_nat fc, parse_decimal cf) of
             (Some n, Some x) \<Rightarrow> Some \<lparr>timestamp = ts, face = n, emotion = em, confidence = x\<rparr>
           | _ \<Rightarrow> None)
      | _ \<Rightarrow> None)"

section \<open>What one face contributes\<close>

text \<open>The statements below describe the loop of \<^verbatim>\<open>analyze_emotions\<close> face by face: the
  card a face yields (none when its dictionary is empty or its confidence is below the
  threshold), what is drawn for it, and the history entry that goes with a card.\<close>

definition face_card_of :: "real \<Rightarrow> nat \<times> detection \<Rightarrow> face_card option" where
  "face_card_of threshold ir =
     (case py_max (emotions (snd ir)) of
        Inl _ \<Rightarrow> None
      | Inr (mood, p) \<Rightarrow>
          if float_mul p 100 < threshold then None
          else Some \<lparr>index = fst ir + 1, emotion = mood, confidence = float_mul p 100,
                      message = get_message mood\<rparr>)"

definition face_draw_ops :: "real \<Rightarrow> nat \<times> detection \<Rightarrow> draw_op list" where
  "face_draw_ops threshold ir =
     (case py_max (emotions (snd ir)) of
        Inl _ \<Rightarrow> []
      | Inr (mood, p) \<Rightarrow>
          if float_mul p 100 < threshold then []
          else (case box (snd ir) of (x, y, bw, bh) \<Rightarrow>
                 [Rectangle (x, y) (x + bw, y + bh) (0, 255, 0) 2,
                  PutText (capitalize mood @ '' ('' @ fmt_1f (float_mul p 100) @ ''%)'') (x, y - 10)
                    FONT_HERSHEY_SIMPLEX (6 / 10) (255, 255, 255) 2]))"

definition annotation :: "detection \<Rightarrow> face_card \<Rightarrow> draw_op list" where
  "annotation r c =
     (case box r of (x, y, bw, bh) \<Rightarrow>
        [Rectangle (x, y) (x + bw, y + bh) (0, 255, 0) 2,
         PutText (capitalize (face_card.emotion c) @ '' ('' @ fmt_1f (face_card.confidence c) @ ''%)'')
           (x, y - 10) FONT_HERSHEY_SIMPLEX (6 / 10) (255, 255, 255) 2])"

definition draw_on :: "draw_op list \<Rightarrow> frame option \<Rightarrow> frame option" where
  "draw_on ops fr = map_option (\<lambda>f. f\<lparr>drawn := drawn f @ ops\<rparr>) fr"

fun readings :: "env \<Rightarrow> nat \<Rightarrow> nat \<Rightarrow> nat \<Rightarrow> nat list" where
  "readings e c k 0 = []"
| "readings e c k (Suc n) = (c + elapse e k) # readings e (c + elapse e k) (Suc k) n"

definition entry_of :: "env \<Rightarrow> nat \<Rightarrow> face_card \<Rightarrow> history_entry" where
  "entry_of e t c =
     \<lparr>timestamp = strftime (calendar e t), face = index c, emotion = face_card.emotion c,
      confidence = py_round2 (face_card.confidence c)\<rparr>"

definition card_events :: "face_card \<Rightarrow> event list" where
  "card_events c =
     [Markdown ''---'' False,
      Markdown (''**Emotion:** `'' @ capitalize (face_card.emotion c) @ ''`'') False,
      Markdown (confidence_bar c) True,
      Card (''Face '' @ show_nat (index c)) (message c) ''ghost'']"

section \<open>What an export holds\<close>

text \<open>An entry can be exported when its confidence is one that \<^verbatim>\<open>round(conf, 2)\<close> leaves
  behind and \<open>float_repr\<close> covers: not negative, below \<open>10\<^sup>1\<^sup>6\<close>, a whole number of
  hundredths. \<open>row_texts\<close> are the four cells of its line. The last two definitions
  serve the proofs about the reader: where it stands after a cell, and the doubling of
  quotes.\<close>

definition exportable :: "history_entry \<Rightarrow> bool" where
  "exportable h \<longleftrightarrow>
     0 \<le> history_entry.confidence h \<and> history_entry.confidence h < 10 ^ 16 \<and>
     of_int \<lfloor>history_entry.confidence h * 100\<rfloor> = history_entry.confidence h * 100"

definition row_texts :: "history_entry \<Rightarrow> string list" where
  "row_texts h = [timestamp h, show_int (int (face h)), history_entry.emotion h,
                  float_repr (history_entry.confidence h)]"

definition export_header :: "string list" where
  "export_header = [''timestamp'', ''face'', ''emotion'', ''confidence'']"

definition export_path :: string where
  "export_path = ''emotion_history.csv''"

definition after_field ::
  "char \<Rightarrow> string \<Rightarrow> string list \<Rightarrow> string list list \<Rightarrow> string \<Rightarrow> string list list option" where
  "after_field d fld r rs rest =
     (if d = CHR '','' then scan FieldStart [] (fld # r) rs rest
      else scan FieldStart [] [] (rev (fld # r) # rs) rest)"

definition escape_quotes :: "string \<Rightarrow> string" where
  "escape_quotes s = concat (map (\<lambda>c. if c = CHR 0x22 then [c, c] else [c]) s)"

section \<open>Camera and timing events\<close>

text \<open>The events of a trace that concern the camera and the pauses; what the trace of
  the Live loop ends with, by the way the loop is left; and the camera as a device that
  one holder opens, reads and releases: \<open>cam_run\<close> follows a trace and fails on an open
  while the device is held and on a read or a release while it is not.\<close>

definition is_device_event :: "event \<Rightarrow> bool" where
  "is_device_event ev =
     (case ev of CamOpen \<Rightarrow> True | CamRead b \<Rightarrow> True | CamRelease \<Rightarrow> True | Sleep n \<Rightarrow> True
      | _ \<Rightarrow> False)"

definition device_events :: "event list \<Rightarrow> event list" where
  "device_events evs = filter is_device_event evs"

fun exit_events :: "loop_exit \<Rightarrow> event list" where
  "exit_events BudgetExpired = []"
| "exit_events ReadFailed = [CamRead False]"
| "exit_events (Raised x) = [CamRead True]"

fun cam_run :: "bool \<Rightarrow> event list \<Rightarrow> bool option" where
  "cam_run held [] = Some held"
| "cam_run held (CamOpen # evs) = (if held then None else cam_run True evs)"
| "cam_run held (CamRelease # evs) = (if held then cam_run False evs else None)"
| "cam_run held (CamRead b # evs) = (if held then cam_run held evs else None)"
| "cam_run held (ev # evs) = cam_run held evs"

section \<open>The shape of a timestamp\<close>

text \<open>Four digits, two, two, a space, and three pairs of digits between colons: the text
  of the format \<^verbatim>\<open>%Y-%m-%d %H:%M:%S\<close> for a year of four digits.\<close>

definition is_digit :: "char \<Rightarrow> bool" where
  "is_digit c \<longleftrightarrow> c \<in> set ''0123456789''"

definition timestamp_format :: "string \<Rightarrow> bool" where
  "timestamp_format s \<longleftrightarrow>
     list_all2 (\<lambda>m c. if m = CHR ''d'' then is_digit c else c = m) ''dddd-dd-dd dd:dd:dd'' s"

section \<open>A sample session\<close>

text \<open>A codec that rejects only the empty buffer, a detector with a fixed answer, a camera
  that always delivers, a second and a quarter between looks at the clock.\<close>

definition demo_env :: "detection list \<Rightarrow> env" where
  "demo_env ds =
     \<lparr>imdecode = (\<lambda>bs. if bs = [] then None else Some \<lparr>pixels = bs, drawn = []\<rparr>),
      imencode = pixels,
      detect_emotions = (\<lambda>img. case img of None \<Rightarrow> Inl (LibraryError ''Image not valid.'')
                                 | Some f \<Rightarrow> Inr ds),
      camera = (\<lambda>k. Some \<lparr>pixels = ''frame'', drawn = []\<rparr>),
      elapse = (\<lambda>k. 1250000),
      calendar = (\<lambda>t. \<lparr>year = 2026, month = 10, day = 12, hour = 14,
                         minute = t div 60000000 mod 60, second = t div 1000000 mod 60,
                         microsecond = t mod 1000000\<rparr>)\<rparr>"

definition demo_world :: world where
  "demo_world =
     \<lparr>history = [], clock = 183750000, ticks = 0, reads = 0, trace = [],
                  files = Map.empty\<rparr>"

definition happy_face :: detection where
  "happy_face = \<lparr>box = (10, 10, 50, 50),
                  emotions = [(''happy'', 82 / 100), (''sad'', 10 / 100), (''neutral'', 8 / 100)]\<rparr>"

definition calm_face :: detection where
  "calm_face = \<lparr>box = (80, 12, 40, 40),
                 emotions = [(''neutral'', 40 / 100), (''sad'', 35 / 100), (''happy'', 25 / 100)]\<rparr>"

definition sad_face :: detection where
  "sad_face = \<lparr>box = (150, 20, 48, 48),
                emotions = [(''happy'', 4 / 100), (''sad'', 91 / 100), (''neutral'', 5 / 100)]\<rparr>"

definition three_faces :: "detection list" where
  "three_faces = [happy_face, calm_face, sad_face]"

definition demo_frame :: frame where
  "demo_frame = \<lparr>pixels = ''jpeg'', drawn = []\<rparr>"

definition demo_cards :: "face_card list" where
  "demo_cards =
     [\<lparr>index = 1, emotion = ''happy'', confidence = 82, message = get_message ''happy''\<rparr>,
      \<lparr>index = 3, emotion = ''sad'', confidence = 91, message = get_message ''sad''\<rparr>]"

definition demo_annotated :: frame where
  "demo_annotated =
     \<lparr>pixels = ''jpeg'',
      drawn = [Rectangle (10, 10) (60, 60) (0, 255, 0) 2,
               PutText ''Happy (82.0%)'' (10, 0) FONT_HERSHEY_SIMPLEX (6 / 10) (255, 255, 255) 2,
               Rectangle (150, 20) (198, 68) (0, 255, 0) 2,
               PutText ''Sad (91.0%)'' (150, 10) FONT_HERSHEY_SIMPLEX (6 / 10) (255, 255, 255) 2]\<rparr>"

definition demo_history :: "history_entry list" where
  "demo_history =
     [\<lparr>timestamp = ''2026-10-12 14:03:05'', face = 1, emotion = ''happy'', confidence = 82\<rparr>,
      \<lparr>timestamp = ''2026-10-12 14:03:06'', face = 3, emotion = ''sad'', confidence = 91\<rparr>]"

definition keen_card :: face_card where
  "keen_card = \<lparr>index = 1, emotion = ''happy'', confidence = 826 / 10,
                 message = get_message ''happy''\<rparr>"

definition still_env :: env where
  "still_env = (demo_env [])\<lparr>elapse := (\<lambda>k. 25000000)\<rparr>"

definition failing_env :: env where
  "failing_env = (demo_env [])\<lparr>detect_emotions := (\<lambda>img. Inl (LibraryError ''detector failed''))\<rparr>"

text \<open>
  Two faces whose scores are doubles, written as the literals \<^verbatim>\<open>0.58\<close>, \<^verbatim>\<open>0.30\<close>, ... denote
  them. For the first the product \<^verbatim>\<open>0.58 * 100\<close> is the double \<^verbatim>\<open>57.99999999999999\<close>; for
  the second \<^verbatim>\<open>0.35 * 100\<close> is \<^verbatim>\<open>35.0\<close>, although the double \<^verbatim>\<open>0.35\<close> lies below \<open>35 / 100\<close>.
\<close>

definition borderline_face :: detection where
  "borderline_face =
     \<lparr>box = (20, 20, 40, 40),
      emotions = [(''happy'', round_double (58 / 100)), (''sad'', round_double (30 / 100)),
                  (''neutral'', round_double (12 / 100))]\<rparr>"

definition mild_face :: detection where
  "mild_face =
     \<lparr>box = (80, 30, 44, 44),
      emotions = [(''happy'', round_double (33 / 100)), (''sad'', round_double (32 / 100)),
                  (''neutral'', round_double (35 / 100))]\<rparr>"

definition mild_cards :: "face_card list" where
  "mild_cards =
     [\<lparr>index = 1, emotion = ''neutral'', confidence = 35, message = get_message ''neutral''\<rparr>]"




definition logged_world :: world where
  "logged_world = demo_world\<lparr>history := demo_history\<rparr>"

definition demo_csv :: string where
  "demo_csv = ''timestamp,face,emotion,confidence'' @ [CHR 0x0A] @
              ''2026-10-12 14:03:05,1,happy,82.0'' @ [CHR 0x0A] @
              ''2026-10-12 14:03:06,3,sad,91.0'' @ [CHR 0x0A]"

section \<open>The loop of analyze_emotions, face by face\<close>

lemma draw_on_Nil: "draw_on [] fr = fr"
  by (cases fr) (simp_all add: draw_on_def)

lemma draw_on_append: "draw_on ys (draw_on xs fr) = draw_on (xs @ ys) fr"
  by (cases fr) (simp_all add: draw_on_def)

lemma analyze_loop_Inr:
  "analyze_loop e thr xs cards fr w = (Inr (cards', fr'), w') \<Longrightarrow>
     cards' = cards @ List.map_filter (face_card_of thr) xs \<and>
     fr' = draw_on (concat (map (face_draw_ops thr) xs)) fr \<and>
     history w' = history w @
       map2 (entry_of e)
         (readings e (clock w) (ticks w) (length (List.map_filter (face_card_of thr) xs)))
         (List.map_filter (face_card_of thr) xs) \<and>
     ticks w' = ticks w + length (List.map_filter (face_card_of thr) xs) \<and>
     clock w' = last (clock w # readings e (clock w) (ticks w)
                        (length (List.map_filter (face_card_of thr) xs))) \<and>
     reads w' = reads w \<and> trace w' = trace w \<and> files w' = files w \<and>
     (\<forall>ir\<in>set xs. emotions (snd ir) \<noteq> [])"
proof (induction xs arbitrary: cards fr w)
  case Nil
  then show ?case by (simp add: draw_on_Nil)
next
  case (Cons a xs)
  obtain i r where a: "a = (i, r)" by (cases a)
  show ?case
  proof (cases "py_max (emotions r)")
    case (Inl x)
    with Cons.prems a show ?thesis by simp
  next
    case (Inr mp)
    obtain mood p where mp: "mp = (mood, p)" by (cases mp)
    from Inr have ne: "emotions r \<noteq> []" by (cases "emotions r") simp_all
    show ?thesis
    proof (cases "float_mul p 100 < thr")
      case True
      with Cons.prems a Inr mp
      have "analyze_loop e thr xs cards fr w = (Inr (cards', fr'), w')" by simp
      from Cons.IH[OF this] True a Inr mp ne show ?thesis
        by (simp add: face_card_of_def face_draw_ops_def)
    next
      case False
      define c where "c = \<lparr>index = i + 1, emotion = mood, confidence = float_mul p 100,
                      message = get_message mood\<rparr>"
      define w2 where "w2 = (tick e w)\<lparr>history := history (tick e w) @
                            [\<lparr>timestamp = strftime (calendar e (clock (tick e w))), face = i + 1,
                              emotion = mood, confidence = py_round2 (float_mul p 100)\<rparr>]\<rparr>"
      from False Cons.prems a Inr mp
      have "analyze_loop e thr xs (cards @ [c]) (draw_on (face_draw_ops thr a) fr) w2
              = (Inr (cards', fr'), w')"
        by (cases fr)
          (simp_all add: Let_def datetime_now_def c_def w2_def draw_on_def face_draw_ops_def
            cv2_rectangle_def cv2_putText_def split: prod.splits)
      from Cons.IH[OF this] False a Inr mp ne show ?thesis
        by (simp add: face_card_of_def c_def w2_def tick_def entry_of_def draw_on_append)
    qed
  qed
qed

lemma face_card_of_Some:
  "face_card_of thr ir = Some c \<longleftrightarrow>
     (\<exists>mood p. py_max (emotions (snd ir)) = Inr (mood, p) \<and> thr \<le> float_mul p 100 \<and>
        c = \<lparr>index = fst ir + 1, emotion = mood, confidence = float_mul p 100,
             message = get_message mood\<rparr>)"
  by (auto simp: face_card_of_def split: sum.splits)

lemma draw_ops_annotation:
  "\<forall>ir\<in>set xs. fst ir < length results \<and> results ! fst ir = snd ir \<Longrightarrow>
     concat (map (face_draw_ops thr) xs) =
     concat (map (\<lambda>c. annotation (results ! (index c - 1)) c) (List.map_filter (face_card_of thr) xs))"
proof (induction xs)
  case Nil
  then show ?case by simp
next
  case (Cons a xs)
  then have IH: "concat (map (face_draw_ops thr) xs) =
     concat (map (\<lambda>c. annotation (results ! (index c - 1)) c) (List.map_filter (face_card_of thr) xs))"
    by simp
  from Cons.prems have a: "results ! fst a = snd a" by simp
  show ?case
  proof (cases "face_card_of thr a")
    case None
    then have "face_draw_ops thr a = []"
      by (auto simp: face_card_of_def face_draw_ops_def split: sum.splits if_splits)
    with None IH show ?thesis by simp
  next
    case (Some c)
    then have "face_draw_ops thr a = annotation (snd a) c" and "index c = fst a + 1"
      by (auto simp: face_card_of_def face_draw_ops_def annotation_def
          split: sum.splits if_splits prod.splits)
    with Some IH a show ?thesis by simp
  qed
qed

lemma enumerate_nth_self:
  "\<forall>ir\<in>set (enumerate 0 results). fst ir < length results \<and> results ! fst ir = snd ir"
  by (auto simp: in_set_enumerate_eq)

lemma index_cards_enumerate:
  "map index (List.map_filter (face_card_of thr) xs) =
     map (\<lambda>ir. fst ir + 1) (filter (\<lambda>ir. face_card_of thr ir \<noteq> None) xs)"
proof (induction xs)
  case Nil
  then show ?case by simp
next
  case (Cons a xs)
  show ?case
  proof (cases "face_card_of thr a")
    case None
    with Cons.IH show ?thesis by simp
  next
    case (Some c)
    then have "index c = fst a + 1" by (auto simp: face_card_of_Some)
    with Some Cons.IH show ?thesis by simp
  qed
qed

lemma sorted_index_cards:
  "sorted_wrt (<) (map index (List.map_filter (face_card_of thr) (enumerate n results)))"
proof -
  have "sorted_wrt (<) (map fst (enumerate n results))"
    by (simp add: map_fst_enumerate)
  then have "sorted_wrt (\<lambda>a b. fst a < fst b) (enumerate n results)"
    by (simp only: sorted_wrt_map)
  then have "sorted_wrt (\<lambda>a b. fst a < fst b)
               (filter (\<lambda>ir. face_card_of thr ir \<noteq> None) (enumerate n results))"
    by (rule sorted_wrt_filter)
  then show ?thesis
    by (simp add: index_cards_enumerate sorted_wrt_map)
qed

lemma length_cards_le:
  "length (List.map_filter f xs) \<le> length xs"
  by (simp add: List.map_filter_def)

lemma length_cards_eq:
  "length (List.map_filter f xs) = length xs \<longleftrightarrow> (\<forall>x\<in>set xs. f x \<noteq> None)"
proof -
  have "length (filter (\<lambda>x. f x \<noteq> None) xs) = length xs \<longleftrightarrow> (\<forall>x\<in>set xs. f x \<noteq> None)"
  proof
    assume eq: "length (filter (\<lambda>x. f x \<noteq> None) xs) = length xs"
    show "\<forall>x\<in>set xs. f x \<noteq> None"
    proof
      fix x assume "x \<in> set xs"
      show "f x \<noteq> None"
      proof
        assume "f x = None"
        with \<open>x \<in> set xs\<close> have "length (filter (\<lambda>x. f x \<noteq> None) xs) < length xs"
          by (intro length_filter_less) auto
        with eq show False by simp
      qed
    qed
  next
    assume "\<forall>x\<in>set xs. f x \<noteq> None"
    then show "length (filter (\<lambda>x. f x \<noteq> None) xs) = length xs" by simp
  qed
  then show ?thesis by (simp add: List.map_filter_def)
qed

lemma analyze_loop_world:
  "analyze_loop e thr xs cards fr w = (res, w') \<Longrightarrow>
     (\<exists>new. history w' = history w @ new \<and>
        map timestamp new =
          map (\<lambda>t. strftime (calendar e t)) (readings e (clock w) (ticks w) (length new)) \<and>
        ticks w' = ticks w + length new) \<and>
     clock w \<le> clock w' \<and> reads w' = reads w \<and> trace w' = trace w \<and> files w' = files w"
proof (induction xs arbitrary: cards fr w)
  case Nil
  then show ?case by simp
next
  case (Cons a xs)
  obtain i r where a: "a = (i, r)" by (cases a)
  show ?case
  proof (cases "py_max (emotions r)")
    case (Inl x)
    with Cons.prems a show ?thesis by simp
  next
    case (Inr mp)
    obtain mood p where mp: "mp = (mood, p)" by (cases mp)
    show ?thesis
    proof (cases "float_mul p 100 < thr")
      case True
      with Cons.prems a Inr mp
      have "analyze_loop e thr xs cards fr w = (res, w')" by simp
      from Cons.IH[OF this] show ?thesis .
    next
      case False
      define h where "h = \<lparr>timestamp = strftime (calendar e (clock (tick e w))), face = i + 1,
                              emotion = mood, confidence = py_round2 (float_mul p 100)\<rparr>"
      define w2 where "w2 = (tick e w)\<lparr>history := history (tick e w) @ [h]\<rparr>"
      from False Cons.prems a Inr mp obtain cards2 fr2 where
        "analyze_loop e thr xs cards2 fr2 w2 = (res, w')"
        by (simp add: Let_def datetime_now_def h_def w2_def split: prod.splits)
      from Cons.IH[OF this] obtain new where new:
        "history w' = history w2 @ new"
        "map timestamp new =
           map (\<lambda>t. strftime (calendar e t)) (readings e (clock w2) (ticks w2) (length new))"
        "ticks w' = ticks w2 + length new"
        and rest: "clock w2 \<le> clock w'" "reads w' = reads w2" "trace w' = trace w2"
          "files w' = files w2"
        by blast
      have "history w' = history w @ (h # new)"
        using new(1) by (simp add: w2_def tick_def)
      moreover have "map timestamp (h # new) =
          map (\<lambda>t. strftime (calendar e t)) (readings e (clock w) (ticks w) (length (h # new)))"
        using new(2) by (simp add: w2_def tick_def h_def)
      moreover have "ticks w' = ticks w + length (h # new)"
        using new(3) by (simp add: w2_def tick_def)
      ultimately have "\<exists>new. history w' = history w @ new \<and>
        map timestamp new =
          map (\<lambda>t. strftime (calendar e t)) (readings e (clock w) (ticks w) (length new)) \<and>
        ticks w' = ticks w + length new"
        by blast
      with rest show ?thesis by (simp add: w2_def tick_def)
    qed
  qed
qed

lemma in_set_map_filter:
  "y \<in> set (List.map_filter f xs) \<longleftrightarrow> (\<exists>x\<in>set xs. f x = Some y)"
  by (induction xs) (auto split: option.splits)

lemma analyze_emotions_Inr:
  assumes "detect_emotions e (imdecode e image_bytes) = Inr results"
      and "analyze_emotions e image_bytes fr threshold w = (Inr (cards, fr'), w')"
  shows "cards = List.map_filter (face_card_of threshold) (enumerate 0 results)"
    and "fr' = draw_on (concat (map (\<lambda>c. annotation (results ! (index c - 1)) c) cards)) fr"
    and "history w' = history w @
           map2 (entry_of e) (readings e (clock w) (ticks w) (length cards)) cards"
    and "\<forall>r\<in>set results. emotions r \<noteq> []"
proof -
  from assms have loop:
    "analyze_loop e threshold (enumerate 0 results) [] fr w = (Inr (cards, fr'), w')"
    by (simp add: analyze_emotions_def)
  note facts = analyze_loop_Inr[OF loop]
  from facts show c: "cards = List.map_filter (face_card_of threshold) (enumerate 0 results)"
    by simp
  from facts c show "history w' = history w @
           map2 (entry_of e) (readings e (clock w) (ticks w) (length cards)) cards"
    by simp
  from facts c draw_ops_annotation[OF enumerate_nth_self, of threshold results]
  show "fr' = draw_on (concat (map (\<lambda>c. annotation (results ! (index c - 1)) c) cards)) fr"
    by simp
  from facts have "\<forall>ir\<in>set (enumerate 0 results). emotions (snd ir) \<noteq> []" by simp
  then have "\<forall>i<length results. emotions (results ! i) \<noteq> []"
    by (simp add: in_set_enumerate_eq Ball_def)
  then show "\<forall>r\<in>set results. emotions r \<noteq> []"
    by (auto simp: in_set_conv_nth)
qed

lemma py_max_nonempty: "es \<noteq> [] \<Longrightarrow> \<exists>mood p. py_max es = Inr (mood, p)"
  by (cases es) (auto intro: prod.exhaust)

lemma index_cards_positions:
  "map index (List.map_filter (face_card_of thr) (enumerate 0 results)) =
     map Suc (filter (\<lambda>i. \<exists>mood p. py_max (emotions (results ! i)) = Inr (mood, p) \<and> thr \<le> float_mul p 100)
                [0..<length results])"
proof -
  have e: "enumerate 0 results = map (\<lambda>i. (i, results ! i)) [0..<length results]"
    by (auto simp: enumerate_eq_zip intro!: nth_equalityI)
  have "filter (\<lambda>ir. face_card_of thr ir \<noteq> None) (map (\<lambda>i. (i, results ! i)) [0..<length results])
          = map (\<lambda>i. (i, results ! i))
              (filter (\<lambda>i. face_card_of thr (i, results ! i) \<noteq> None) [0..<length results])"
    by (simp add: filter_map comp_def)
  moreover have "(\<lambda>i. face_card_of thr (i, results ! i) \<noteq> None) =
      (\<lambda>i. \<exists>mood p. py_max (emotions (results ! i)) = Inr (mood, p) \<and> thr \<le> float_mul p 100)"
    by (auto simp: face_card_of_Some)
  ultimately show ?thesis
    by (simp add: index_cards_enumerate e comp_def)
qed

section \<open>Rounding and digits\<close>

lemma round_half_even_of_int [simp]: "round_half_even (of_int n) = n"
  by (simp add: round_half_even_def)

lemma round_half_even_bounds:
  "\<lfloor>r\<rfloor> \<le> round_half_even r" "r \<le> of_int m \<Longrightarrow> round_half_even r \<le> m"
proof -
  show "\<lfloor>r\<rfloor> \<le> round_half_even r"
    by (simp add: round_half_even_def Let_def)
  assume le: "r \<le> of_int m"
  have f: "\<lfloor>r\<rfloor> \<le> m" using floor_mono[OF le] by simp
  show "round_half_even r \<le> m"
  proof (cases "r - of_int \<lfloor>r\<rfloor> < 1 / 2")
    case True
    with f show ?thesis by (simp add: round_half_even_def Let_def)
  next
    case False
    then have "of_int \<lfloor>r\<rfloor> < r" by linarith
    with le have "of_int \<lfloor>r\<rfloor> < (of_int m :: real)" by linarith
    then have "\<lfloor>r\<rfloor> < m" by simp
    then show ?thesis by (simp add: round_half_even_def Let_def)
  qed
qed

lemma py_round2_8200: "py_round2 82 = 82"
proof -
  have "round_half_even (82 * 100) = 8200"
    using round_half_even_of_int[of 8200] by simp
  then show ?thesis by (simp add: py_round2_def)
qed

lemma round_half_even_numeral [simp]: "round_half_even (numeral k) = numeral k"
  using round_half_even_of_int[of "numeral k"] by simp

lemma py_round2_numeral [simp]: "py_round2 (numeral k) = numeral k"
proof -
  have "round_half_even (numeral k * 100) = numeral k * 100"
    using round_half_even_of_int[of "numeral k * 100"] by simp
  then show ?thesis by (simp add: py_round2_def)
qed

lemma is_digit_digit_char [simp]: "is_digit (digit_char d)"
  by (simp add: is_digit_def digit_char_def)

lemma show_nat_digit: "n < 10 \<Longrightarrow> show_nat n = [digit_char n]"
  by (simp add: show_nat.simps[of n])

lemma show_nat_step: "10 \<le> n \<Longrightarrow> show_nat n = show_nat (n div 10) @ [digit_char (n mod 10)]"
  by (simp add: show_nat.simps[of n])

lemma show_nat_four_digits:
  assumes "1000 \<le> n" and "n \<le> 9999"
  shows "show_nat n = [digit_char (n div 1000), digit_char (n div 100 mod 10),
                       digit_char (n div 10 mod 10), digit_char (n mod 10)]"
proof -
  have d: "n div 100 div 10 = n div 1000" "n div 10 div 10 = n div 100"
    by (simp_all add: div_mult2_eq[symmetric])
  have "show_nat (n div 1000) = [digit_char (n div 1000)]"
    using assms by (intro show_nat_digit) simp
  moreover have "show_nat (n div 100) = show_nat (n div 1000) @ [digit_char (n div 100 mod 10)]"
    using assms show_nat_step[of "n div 100"] by (simp add: d)
  moreover have "show_nat (n div 10) = show_nat (n div 100) @ [digit_char (n div 10 mod 10)]"
    using assms show_nat_step[of "n div 10"] by (simp add: d)
  moreover have "show_nat n = show_nat (n div 10) @ [digit_char (n mod 10)]"
    using assms show_nat_step[of n] by simp
  ultimately show ?thesis by simp
qed

lemma timestamp_format_strftime:
  assumes "1000 \<le> year d" and "year d \<le> 9999"
  shows "timestamp_format (strftime d)"
  using assms by (simp add: timestamp_format_def strftime_def show_nat_four_digits pad2_def)

subsection \<open>Doubles\<close>

lemma bit_length_le: "n < 2 ^ k \<Longrightarrow> bit_length n \<le> k"
proof (induction k arbitrary: n)
  case 0
  then show ?case by (simp add: bit_length.simps)
next
  case (Suc k)
  show ?case
  proof (cases "n = 0")
    case True
    then show ?thesis by (simp add: bit_length.simps)
  next
    case False
    from Suc.prems have "n div 2 < 2 ^ k" by simp
    from Suc.IH[OF this] False show ?thesis by (simp add: bit_length.simps[of n])
  qed
qed

lemma ulp_exact:
  assumes "e \<le> 52"
  shows "of_int (round_half_even (of_int m /
            (if 52 \<le> e then 2 ^ nat (e - 52) else 1 / 2 ^ nat (52 - e)))) *
          (if 52 \<le> e then 2 ^ nat (e - 52) else 1 / 2 ^ nat (52 - e)) = (of_int m :: real)"
proof (cases "e = 52")
  case True
  then show ?thesis by simp
next
  case False
  with assms have lt: "\<not> 52 \<le> e" by simp
  have "of_int m / (1 / 2 ^ nat (52 - e)) = (of_int (m * 2 ^ nat (52 - e)) :: real)"
    by simp
  then have "round_half_even (of_int m / (1 / 2 ^ nat (52 - e))) = m * 2 ^ nat (52 - e)"
    by (simp only: round_half_even_of_int)
  with lt show ?thesis by simp
qed

lemma float_exponent_le:
  assumes "\<bar>x\<bar> < 2 ^ 53"
  shows "max (float_exponent x) (- 1022) \<le> 52"
proof (cases "1 \<le> \<bar>x\<bar>")
  case True
  from assms have "\<lfloor>\<bar>x\<bar>\<rfloor> < 2 ^ 53" by (simp add: floor_less_iff)
  moreover have "0 \<le> \<lfloor>\<bar>x\<bar>\<rfloor>" by simp
  ultimately have "nat \<lfloor>\<bar>x\<bar>\<rfloor> < 2 ^ 53" by (simp only: nat_less_iff) simp
  from bit_length_le[OF this] True show ?thesis by (simp add: float_exponent_def)
next
  case False
  then show ?thesis by (simp add: float_exponent_def)
qed

lemma round_double_of_int:
  assumes "\<bar>m\<bar> < 2 ^ 53"
  shows "round_double (of_int m) = of_int m"
proof -
  from assms have "\<bar>of_int m :: real\<bar> < 2 ^ 53"
    by (metis of_int_abs of_int_less_numeral_power_cancel_iff)
  from float_exponent_le[OF this] show ?thesis
    unfolding round_double_def Let_def by (rule ulp_exact)
qed

lemma round_double_numeral [simp]:
  "numeral k < (9007199254740992 :: int) \<Longrightarrow> round_double (numeral k) = numeral k"
  using round_double_of_int[of "numeral k"] by simp

lemma round_double_le:
  assumes "x \<le> of_int m" and "0 \<le> m" and "m < 2 ^ 53"
  shows "round_double x \<le> of_int m"
proof -
  define e where "e = max (float_exponent x) (- 1022)"
  define ulp :: real where "ulp = (if 52 \<le> e then 2 ^ nat (e - 52) else 1 / 2 ^ nat (52 - e))"
  have pos: "0 < ulp" by (simp add: ulp_def)
  have rd: "round_double x = of_int (round_half_even (x / ulp)) * ulp"
    by (simp add: round_double_def Let_def e_def ulp_def)
  show ?thesis
  proof (cases "x \<le> 0")
    case True
    with pos have "x / ulp \<le> of_int 0" by (simp add: divide_le_0_iff)
    from round_half_even_bounds(2)[OF this] have "round_half_even (x / ulp) \<le> 0" .
    then have "of_int (round_half_even (x / ulp)) * ulp \<le> 0"
      using pos by (simp add: mult_le_0_iff)
    with assms(2) show ?thesis by (simp add: rd)
  next
    case False
    with assms have "\<bar>x\<bar> < 2 ^ 53" by simp
    from float_exponent_le[OF this] have e: "e \<le> 52" by (simp add: e_def)
    define M where "M = (if 52 \<le> e then m else m * 2 ^ nat (52 - e))"
    have M: "of_int M * ulp = (of_int m :: real)"
      using e by (auto simp: M_def ulp_def)
    then have "(of_int m :: real) / ulp = of_int M" using pos by (simp add: field_simps)
    with assms(1) pos have "x / ulp \<le> of_int M"
      by (metis divide_right_mono less_imp_le)
    from round_half_even_bounds(2)[OF this] have "round_half_even (x / ulp) \<le> M" .
    then have "of_int (round_half_even (x / ulp)) * ulp \<le> of_int M * ulp"
      using pos by simp
    with M show ?thesis by (simp add: rd)
  qed
qed


lemma float_mul_le_100: "p \<le> 1 \<Longrightarrow> float_mul p 100 \<le> 100"
  using round_double_le[of "p * 100" 100] by (simp add: float_mul_def)

section \<open>The sample session, evaluated\<close>

lemma fmt_1f_82: "fmt_1f 82 = ''82.0''"
proof -
  have "round_half_even (82 * 10) = 820"
    using round_half_even_of_int[of 820] by simp
  then show ?thesis by (simp add: fmt_1f_def show_nat.simps digit_char_def)
qed

lemma fmt_1f_91: "fmt_1f 91 = ''91.0''"
proof -
  have "round_half_even (91 * 10) = 910"
    using round_half_even_of_int[of 910] by simp
  then show ?thesis by (simp add: fmt_1f_def show_nat.simps digit_char_def)
qed

lemma demo_detect:
  "detect_emotions (demo_env three_faces) (imdecode (demo_env three_faces) ''jpeg'')
     = Inr three_faces"
  by (simp add: demo_env_def)

lemma demo_run:
  "analyze_emotions (demo_env three_faces) ''jpeg'' (Some demo_frame) default_threshold demo_world
     = (Inr (demo_cards, Some demo_annotated),
        demo_world\<lparr>history := demo_history, clock := 186250000, ticks := 2\<rparr>)"
  by (simp add: analyze_emotions_def demo_env_def three_faces_def happy_face_def calm_face_def
      sad_face_def default_threshold_def demo_world_def demo_frame_def demo_cards_def
      demo_annotated_def demo_history_def enumerate_eq_zip datetime_now_def tick_def Let_def
      cv2_rectangle_def cv2_putText_def upper_char_def lower_char_def fmt_1f_82 fmt_1f_91
      strftime_def pad2_def digit_char_def show_nat.simps float_mul_def)

lemma py_max_demo:
  "py_max (emotions happy_face) = Inr (''happy'', 82 / 100)"
  "py_max (emotions calm_face) = Inr (''neutral'', 40 / 100)"
  "py_max (emotions sad_face) = Inr (''sad'', 91 / 100)"
  by (simp_all add: happy_face_def calm_face_def sad_face_def)

lemma round_double_demo:
  "round_double (58 / 100) = 5224175567749775 / 9007199254740992"
  "round_double (30 / 100) = 5404319552844595 / 18014398509481984"
  "round_double (12 / 100) = 1080863910568919 / 9007199254740992"
  "round_double (35 / 100) = 3152519739159347 / 9007199254740992"
  "round_double (33 / 100) = 5944751508129055 / 18014398509481984"
  "round_double (32 / 100) = 5764607523034235 / 18014398509481984"
  by (simp_all add: round_double_def float_exponent_def Let_def bit_length.simps
      round_half_even_def)

lemma py_max_borderline:
  "py_max (emotions borderline_face) = Inr (''happy'', 5224175567749775 / 9007199254740992)"
  unfolding borderline_face_def round_double_demo by simp

lemma float_mul_borderline:
  "float_mul (5224175567749775 / 9007199254740992) 100 = 8162774324609023 / 140737488355328"
  by (simp add: float_mul_def round_double_def float_exponent_def Let_def bit_length.simps
      round_half_even_def)

lemma borderline_run:
  "analyze_emotions (demo_env [borderline_face]) ''jpeg'' (Some demo_frame) 58 demo_world
     = (Inr ([], Some demo_frame), demo_world)"
  by (simp add: analyze_emotions_def demo_env_def enumerate_eq_zip py_max_borderline
      float_mul_borderline)

lemma py_max_mild:
  "py_max (emotions mild_face) = Inr (''neutral'', 3152519739159347 / 9007199254740992)"
  unfolding mild_face_def round_double_demo by simp

lemma float_mul_mild:
  "float_mul (3152519739159347 / 9007199254740992) 100 = 35"
  by (simp add: float_mul_def round_double_def float_exponent_def Let_def bit_length.simps
      round_half_even_def)

lemma mild_run:
  "\<exists>fr' w'. analyze_emotions (demo_env [mild_face]) ''jpeg'' (Some demo_frame) 35 demo_world
     = (Inr (mild_cards, fr'), w')"
  by (simp add: analyze_emotions_def demo_env_def enumerate_eq_zip py_max_mild float_mul_mild
      mild_cards_def Let_def datetime_now_def split: prod.splits)

section \<open>What display_cards puts on the page\<close>

lemma display_cards_trace:
  "display_cards cards w = w\<lparr>trace := trace w @ concat (map card_events cards)\<rparr>"
  by (induction cards arbitrary: w) (simp_all add: st_event_def card_events_def)

section \<open>The tabs, event by event\<close>

lemma analyze_emotions_world:
  assumes "analyze_emotions e b fr thr w = (res, w')"
  shows "trace w' = trace w" and "reads w' = reads w" and "files w' = files w"
    and "clock w \<le> clock w'"
proof -
  have "trace w' = trace w \<and> reads w' = reads w \<and> files w' = files w \<and> clock w \<le> clock w'"
  proof (cases "detect_emotions e (imdecode e b)")
    case (Inl x)
    with assms show ?thesis by (simp add: analyze_emotions_def)
  next
    case (Inr results)
    with assms have "analyze_loop e thr (enumerate 0 results) [] fr w = (res, w')"
      by (simp add: analyze_emotions_def)
    from analyze_loop_world[OF this] show ?thesis by simp
  qed
  then show "trace w' = trace w" and "reads w' = reads w" and "files w' = files w"
    and "clock w \<le> clock w'" by simp_all
qed

lemma analyze_emotions_detector_failure:
  "detect_emotions e (imdecode e image_bytes) = Inl x \<Longrightarrow>
     analyze_emotions e image_bytes fr threshold w = (Inl x, w)"
  by (simp add: analyze_emotions_def)

lemma analyze_loop_total:
  "\<forall>ir\<in>set xs. emotions (snd ir) \<noteq> [] \<Longrightarrow>
     \<exists>cards' fr' w'. analyze_loop e thr xs cards fr w = (Inr (cards', fr'), w')"
proof (induction xs arbitrary: cards fr w)
  case Nil
  then show ?case by simp
next
  case (Cons a xs)
  obtain i r where a: "a = (i, r)" by (cases a)
  with Cons.prems have "emotions r \<noteq> []" by simp
  then obtain mood p where top: "py_max (emotions r) = Inr (mood, p)"
    using py_max_nonempty by blast
  from Cons.prems have rest: "\<forall>ir\<in>set xs. emotions (snd ir) \<noteq> []" by simp
  show ?case
    using Cons.IH[OF rest] a top
    by (simp add: Let_def split: prod.splits)
qed

lemma analyze_emotions_total:
  assumes "detect_emotions e (imdecode e b) = Inr ds" and "\<forall>d\<in>set ds. emotions d \<noteq> []"
  shows "\<exists>cards fr' w'. analyze_emotions e b fr thr w = (Inr (cards, fr'), w')"
proof -
  from assms(2) have "\<forall>ir\<in>set (enumerate 0 ds). emotions (snd ir) \<noteq> []"
    by (auto simp: in_set_enumerate_eq)
  from analyze_loop_total[OF this] assms(1) show ?thesis
    by (simp add: analyze_emotions_def)
qed

lemma device_events_append [simp]:
  "device_events (xs @ ys) = device_events xs @ device_events ys"
  by (simp add: device_events_def)

lemma device_events_Nil [simp]: "device_events [] = []"
  by (simp add: device_events_def)

lemma device_events_Cons [simp]:
  "device_events (ev # evs) =
     (if is_device_event ev then ev # device_events evs else device_events evs)"
  by (simp add: device_events_def)

lemma device_events_cards [simp]: "device_events (concat (map card_events cards)) = []"
  by (induction cards) (simp_all add: card_events_def is_device_event_def)

lemma live_loop_events:
  "live_loop e start w = (ex, w') \<Longrightarrow>
     \<exists>n evs. trace w' = trace w @ evs \<and>
       device_events evs = concat (replicate n [CamRead True, Sleep 5]) @ exit_events ex \<and>
       (ex = BudgetExpired \<longrightarrow> 60 \<le> real (clock w') / 1000000 - start) \<and>
       (ex = ReadFailed \<longrightarrow> (\<exists>pre. evs = pre @ [CamRead False, Error ''Webcam error.'']))"
proof (induction e start w arbitrary: ex w' rule: live_loop.induct)
  case (1 e start w)
  obtain t w1 where tt: "time_time e w = (t, w1)" by (cases "time_time e w")
  then have w1: "trace w1 = trace w" and t: "t = real (clock w1) / 1000000"
    by (auto simp: time_time_def tick_def Let_def)
  show ?case
  proof (cases "t - start < 60")
    case False
    with "1.prems" tt have "ex = BudgetExpired" "w' = w1"
      by (simp_all add: live_loop.simps[of e start w])
    with False w1 t show ?thesis
      by (intro exI[of _ 0] exI[of _ "[]"]) simp
  next
    case True
    obtain r w2 where cr: "cap_read e w1 = (r, w2)" by (cases "cap_read e w1")
    then have w2: "trace w2 = trace w1 @ [CamRead (r \<noteq> None)]"
      by (auto simp: cap_read_def)
    show ?thesis
    proof (cases r)
      case None
      with "1.prems" tt True cr
      have "ex = ReadFailed" "w' = st_event (Error ''Webcam error.'') w2"
        by (simp_all add: live_loop.simps[of e start w])
      with None w1 w2 show ?thesis
        by (intro exI[of _ 0] exI[of _ "[CamRead False, Error ''Webcam error.'']"])
          (simp add: st_event_def is_device_event_def)
    next
      case (Some frame)
      obtain res w3 where an:
        "analyze_emotions e (imencode e frame) (Some frame) default_threshold w2 = (res, w3)"
        by (cases "analyze_emotions e (imencode e frame) (Some frame) default_threshold w2")
      from analyze_emotions_world(1)[OF an] have w3: "trace w3 = trace w2" .
      show ?thesis
      proof (cases res)
        case (Inl x)
        with "1.prems" tt True cr Some an have "ex = Raised x" "w' = w3"
          by (simp_all add: live_loop.simps[of e start w])
        with Some w1 w2 w3 show ?thesis
          by (intro exI[of _ 0] exI[of _ "[CamRead True]"])
            (simp add: is_device_event_def)
      next
        case (Inr b)
        obtain cards annotated where b: "b = (cards, annotated)" by (cases b)
        define w4 where
          "w4 = time_sleep e 5 (display_cards cards (st_event (Image annotated) w3))"
        have w4: "trace w4 = trace w3 @ [Image annotated] @ concat (map card_events cards) @ [Sleep 5]"
          by (simp add: w4_def time_sleep_def tick_def Let_def display_cards_trace st_event_def)
        from "1.prems" tt True cr Some an Inr b have run: "live_loop e start w4 = (ex, w')"
          by (simp add: live_loop.simps[of e start w] w4_def)
        from "1.IH"[OF tt[symmetric] True cr[symmetric] Some an[symmetric] Inr b[symmetric]
            run[unfolded w4_def]]
        obtain n evs where ih: "trace w' = trace w4 @ evs"
          "device_events evs = concat (replicate n [CamRead True, Sleep 5]) @ exit_events ex"
          "ex = BudgetExpired \<longrightarrow> 60 \<le> real (clock w') / 1000000 - start"
          "ex = ReadFailed \<longrightarrow> (\<exists>pre. evs = pre @ [CamRead False, Error ''Webcam error.''])"
          unfolding w4_def[symmetric] by blast
        let ?evs = "[CamRead True, Image annotated] @ concat (map card_events cards) @ [Sleep 5] @ evs"
        have "trace w' = trace w @ ?evs"
          using ih(1) w4 w3 w2 w1 Some by simp
        moreover have "device_events ?evs =
            concat (replicate (Suc n) [CamRead True, Sleep 5]) @ exit_events ex"
          using ih(2) by (simp add: is_device_event_def)
        moreover have "ex = ReadFailed \<longrightarrow> (\<exists>pre. ?evs = pre @ [CamRead False, Error ''Webcam error.''])"
        proof
          assume "ex = ReadFailed"
          with ih(4) obtain pre where "evs = pre @ [CamRead False, Error ''Webcam error.'']"
            by blast
          then have "?evs = ([CamRead True, Image annotated] @ concat (map card_events cards) @
                              [Sleep 5] @ pre) @ [CamRead False, Error ''Webcam error.'']"
            by simp
          then show "\<exists>pre. ?evs = pre @ [CamRead False, Error ''Webcam error.'']" by blast
        qed
        ultimately show ?thesis using ih(3) by blast
      qed
    qed
  qed
qed


lemma cam_run_device_events: "cam_run held (device_events evs) = cam_run held evs"
proof (induction evs arbitrary: held)
  case Nil
  then show ?case by simp
next
  case (Cons ev evs)
  then show ?case by (cases ev) (simp_all add: is_device_event_def)
qed

lemma count_list_device_events:
  "is_device_event x \<Longrightarrow> count_list (device_events evs) x = count_list evs x"
  by (induction evs) auto

lemma cam_run_iterations:
  "cam_run True (concat (replicate n [CamRead True, Sleep 5]) @ rest) = cam_run True rest"
  by (induction n) simp_all

lemma count_list_iterations:
  "ev \<noteq> CamRead True \<Longrightarrow> ev \<noteq> Sleep 5 \<Longrightarrow>
     count_list (concat (replicate n [CamRead True, Sleep 5]) @ rest) ev = count_list rest ev"
  by (induction n) simp_all

lemma capture_tab_events:
  assumes "capture_tab e True w = (out, w')"
  shows "\<exists>rest. trace w' = trace w @
           [Subheader capture_title, CamOpen, Sleep 1, CamRead (camera e (reads w) \<noteq> None),
            CamRelease] @ rest \<and> device_events rest = []"
proof -
  define w4 where "w4 = st_event CamRelease (snd (cap_read e (time_sleep e 1
      (st_event CamOpen (st_event (Subheader capture_title) w)))))"
  have w4: "trace w4 = trace w @ [Subheader capture_title, CamOpen, Sleep 1,
      CamRead (camera e (reads w) \<noteq> None), CamRelease]"
    by (simp add: w4_def st_event_def cap_read_def time_sleep_def tick_def Let_def)
  have r: "fst (cap_read e (time_sleep e 1
      (st_event CamOpen (st_event (Subheader capture_title) w)))) = camera e (reads w)"
    by (simp add: st_event_def cap_read_def time_sleep_def tick_def Let_def)
  show ?thesis
  proof (cases "camera e (reads w)")
    case None
    with assms r have "w' = st_event (Error ''Failed to capture image.'') w4"
      by (simp add: capture_tab_def capture_title_def w4_def Let_def split: prod.splits)
    with w4 show ?thesis
      by (intro exI[of _ "[Error ''Failed to capture image.'']"])
        (simp add: st_event_def is_device_event_def)
  next
    case (Some frame)
    obtain res w5 where an:
      "analyze_emotions e (imencode e frame) (Some frame) default_threshold w4 = (res, w5)"
      by (cases "analyze_emotions e (imencode e frame) (Some frame) default_threshold w4")
    from analyze_emotions_world(1)[OF an] have w5: "trace w5 = trace w4" .
    show ?thesis
    proof (cases res)
      case (Inl x)
      with assms r Some an have "w' = w5"
        by (simp add: capture_tab_def capture_title_def w4_def Let_def split: prod.splits)
      with w4 w5 show ?thesis by (intro exI[of _ "[]"]) simp
    next
      case (Inr b)
      obtain cards annotated where b: "b = (cards, annotated)" by (cases b)
      with assms r Some an Inr
      have "w' = display_cards cards (st_event (Image annotated) w5)"
        by (simp add: capture_tab_def capture_title_def w4_def Let_def split: prod.splits)
      with w4 w5 show ?thesis
        by (intro exI[of _ "[Image annotated] @ concat (map card_events cards)"])
          (simp add: display_cards_trace st_event_def is_device_event_def)
    qed
  qed
qed

lemma live_tab_events:
  assumes "live_tab e True w = (out, w')"
  shows "\<exists>n ex evs. trace w' = trace w @ evs \<and>
           device_events evs = [CamOpen] @ concat (replicate n [CamRead True, Sleep 5]) @
             exit_events ex @ (case ex of Raised x \<Rightarrow> [] | _ \<Rightarrow> [CamRelease]) \<and>
           out = (case ex of Raised x \<Rightarrow> Uncaught x | _ \<Rightarrow> Done)"
proof -
  define w1 where "w1 = st_event CamOpen (st_event (Subheader live_title) w)"
  obtain start w2 where tt: "time_time e w1 = (start, w2)" by (cases "time_time e w1")
  obtain ex w3 where run: "live_loop e start w2 = (ex, w3)" by (cases "live_loop e start w2")
  have w2: "trace w2 = trace w @ [Subheader live_title, CamOpen]"
    using tt by (auto simp: w1_def st_event_def time_time_def tick_def Let_def)
  from live_loop_events[OF run] obtain n evs where loop: "trace w3 = trace w2 @ evs"
    "device_events evs = concat (replicate n [CamRead True, Sleep 5]) @ exit_events ex"
    by blast
  show ?thesis
  proof (cases ex)
    case (Raised x)
    with assms tt run have "out = Uncaught x" "w' = w3"
      by (simp_all add: live_tab_def live_title_def w1_def Let_def)
    with loop w2 Raised show ?thesis
      by (intro exI[of _ n] exI[of _ ex] exI[of _ "[Subheader live_title, CamOpen] @ evs"])
        (simp add: is_device_event_def)
  next
    case BudgetExpired
    with assms tt run have "out = Done"
      "w' = st_event (Success live_ended) (st_event DestroyAllWindows (st_event CamRelease w3))"
      by (simp_all add: live_tab_def live_title_def live_ended_def w1_def Let_def)
    with loop w2 BudgetExpired show ?thesis
      by (intro exI[of _ n] exI[of _ ex] exI[of _ "[Subheader live_title, CamOpen] @ evs @
            [CamRelease, DestroyAllWindows, Success live_ended]"])
        (simp add: is_device_event_def st_event_def)
  next
    case ReadFailed
    with assms tt run have "out = Done"
      "w' = st_event (Success live_ended) (st_event DestroyAllWindows (st_event CamRelease w3))"
      by (simp_all add: live_tab_def live_title_def live_ended_def w1_def Let_def)
    with loop w2 ReadFailed show ?thesis
      by (intro exI[of _ n] exI[of _ ex] exI[of _ "[Subheader live_title, CamOpen] @ evs @
            [CamRelease, DestroyAllWindows, Success live_ended]"])
        (simp add: is_device_event_def st_event_def)
  qed
qed

lemma still_run:
  "live_loop still_env (18375 / 100) demo_world =
     (BudgetExpired,
      demo_world\<lparr>clock := 263750000, ticks := 3, reads := 1,
                  trace := [CamRead True, Image (Some \<lparr>pixels = ''frame'', drawn = []\<rparr>), Sleep 5]\<rparr>)"
  by (simp add: live_loop.simps still_env_def demo_env_def demo_world_def time_time_def
      tick_def Let_def cap_read_def analyze_emotions_def default_threshold_def st_event_def
      time_sleep_def enumerate_eq_zip)

lemma capture_run:
  "capture_tab (demo_env []) True demo_world =
     (Done,
      demo_world\<lparr>clock := 186000000, ticks := 1, reads := 1,
                  trace := [Subheader capture_title, CamOpen, Sleep 1, CamRead True, CamRelease,
                            Image (Some \<lparr>pixels = ''frame'', drawn = []\<rparr>)]\<rparr>)"
  by (simp add: capture_tab_def capture_title_def demo_env_def demo_world_def time_sleep_def
      tick_def Let_def cap_read_def analyze_emotions_def default_threshold_def st_event_def
      enumerate_eq_zip)

lemma live_run:
  "live_tab still_env True demo_world =
     (Done,
      demo_world\<lparr>clock := 288750000, ticks := 4, reads := 1,
                  trace := [Subheader live_title, CamOpen, CamRead True,
                            Image (Some \<lparr>pixels = ''frame'', drawn = []\<rparr>), Sleep 5,
                            CamRelease, DestroyAllWindows, Success live_ended]\<rparr>)"
  by (simp add: live_tab_def live_title_def live_ended_def live_loop.simps still_env_def
      demo_env_def demo_world_def time_time_def tick_def Let_def cap_read_def
      analyze_emotions_def default_threshold_def st_event_def time_sleep_def enumerate_eq_zip)



section \<open>Writing and reading the export\<close>

lemma digit_value_digit_char: "d < 10 \<Longrightarrow> digit_value (digit_char d) = Some d"
  by (auto simp: digit_char_def digit_value_def)

lemma digit_char_not_point [simp]: "digit_char d \<noteq> CHR ''.''" "CHR ''.'' \<noteq> digit_char d"
  by (simp_all add: digit_char_def)

lemma parse_digits_append:
  "parse_digits a (xs @ ys) =
     (case parse_digits a xs of None \<Rightarrow> None | Some b \<Rightarrow> parse_digits b ys)"
  by (induction xs arbitrary: a) (auto split: option.splits)

lemma parse_digits_show_nat: "parse_digits 0 (show_nat n) = Some n"
proof (induction n rule: show_nat.induct)
  case (1 n)
  show ?case
  proof (cases "n < 10")
    case True
    then show ?thesis by (simp add: show_nat_digit digit_value_digit_char)
  next
    case False
    with 1 have "parse_digits 0 (show_nat (n div 10)) = Some (n div 10)" by simp
    with False show ?thesis
      by (simp add: show_nat_step parse_digits_append digit_value_digit_char)
  qed
qed

lemma show_nat_not_Nil [simp]: "show_nat n \<noteq> []"
  by (subst show_nat.simps) simp

lemma show_nat_no_point [simp]: "CHR ''.'' \<notin> set (show_nat n)"
proof (induction n rule: show_nat.induct)
  case (1 n)
  then show ?case by (cases "n < 10") (simp_all add: show_nat_digit show_nat_step)
qed

lemma parse_nat_show_nat: "parse_nat (show_nat n) = Some n"
  by (simp add: parse_nat_def parse_digits_show_nat)

lemma parse_nat_digit: "d < 10 \<Longrightarrow> parse_nat [digit_char d] = Some d"
  by (simp add: parse_nat_def digit_value_digit_char)

lemma parse_nat_two_digits:
  "d1 < 10 \<Longrightarrow> d2 < 10 \<Longrightarrow> parse_nat [digit_char d1, digit_char d2] = Some (10 * d1 + d2)"
  by (simp add: parse_nat_def digit_value_digit_char)

lemma takeWhile_show_nat:
  "takeWhile (\<lambda>c. c \<noteq> CHR ''.'') (show_nat k @ CHR ''.'' # ds) = show_nat k"
proof -
  have "\<forall>c\<in>set (show_nat k). c \<noteq> CHR ''.''" by auto
  then have "takeWhile (\<lambda>c. c \<noteq> CHR ''.'') (show_nat k @ CHR ''.'' # ds)
               = show_nat k @ takeWhile (\<lambda>c. c \<noteq> CHR ''.'') (CHR ''.'' # ds)"
    by (intro takeWhile_append2) simp
  then show ?thesis by simp
qed

lemma nat_hundredths:
  "(n::nat) = 100 * (n div 100) + (10 * (n mod 100 div 10) + n mod 10)"
proof -
  have "n mod 100 mod 10 = n mod 10"
    by (rule mod_mod_cancel) simp
  then have "n mod 100 = 10 * (n mod 100 div 10) + n mod 10"
    using mult_div_mod_eq[of 10 "n mod 100"] by simp
  then show ?thesis
    using mult_div_mod_eq[of 100 n] by simp
qed

lemma hundredths_split:
  "real n / 100 = real (n div 100) + real (10 * (n mod 100 div 10) + n mod 10) / 100"
proof -
  have "real n = real (100 * (n div 100) + (10 * (n mod 100 div 10) + n mod 10))"
    using nat_hundredths[of n] by (rule arg_cong)
  also have "\<dots> = 100 * real (n div 100) + real (10 * (n mod 100 div 10) + n mod 10)"
    by (simp only: of_nat_add of_nat_mult of_nat_numeral)
  finally have "real n / 100 =
      (100 * real (n div 100) + real (10 * (n mod 100 div 10) + n mod 10)) / 100"
    by (rule arg_cong)
  also have "\<dots> = 100 * real (n div 100) / 100 + real (10 * (n mod 100 div 10) + n mod 10) / 100"
    by (rule add_divide_distrib)
  also have "100 * real (n div 100) / 100 = real (n div 100)"
    by (rule nonzero_mult_div_cancel_left) simp
  finally show ?thesis .
qed

lemma parse_decimal_point:
  assumes "parse_nat ds = Some d"
  shows "parse_decimal (show_nat k @ CHR ''.'' # ds) = Some (real k + real d / 10 ^ length ds)"
proof -
  have "drop (Suc (length (show_nat k))) (show_nat k @ CHR ''.'' # ds) = ds" by simp
  with assms show ?thesis
    by (simp add: parse_decimal_def Let_def takeWhile_show_nat parse_nat_show_nat)
qed

lemma parse_decimal_float_repr:
  assumes "0 \<le> x" and "of_int \<lfloor>x * 100\<rfloor> = x * 100"
  shows "parse_decimal (float_repr x) = Some x"
proof -
  define n where "n = nat \<lfloor>x * 100\<rfloor>"
  define k where "k = n div 100"
  define d1 where "d1 = n mod 100 div 10"
  define d2 where "d2 = n mod 10"
  from assms(1) have "0 \<le> \<lfloor>x * 100\<rfloor>" by simp
  then have "real n = of_int \<lfloor>x * 100\<rfloor>" by (simp add: n_def)
  with assms(2) have "real n = x * 100" by (simp only:)
  then have x: "x = real n / 100" by simp
  have val: "x = real k + real (10 * d1 + d2) / 100"
    unfolding x k_def d1_def d2_def by (rule hundredths_split)
  have d: "d1 < 10" "d2 < 10" by (simp_all add: d1_def d2_def)
  from assms(1) have abs: "nat \<lfloor>\<bar>x\<bar> * 100\<rfloor> = n" by (simp add: n_def)
  from assms(1) have neg: "\<not> x < 0" by simp
  have repr: "float_repr x = show_nat k @ CHR ''.'' #
      (if d2 = 0 then [digit_char d1] else [digit_char d1, digit_char d2])"
    unfolding float_repr_def Let_def abs k_def d1_def d2_def using neg by simp
  show ?thesis
  proof (cases "d2 = 0")
    case True
    have "parse_decimal (float_repr x) = Some (real k + real d1 / 10 ^ length [digit_char d1])"
      unfolding repr using True parse_decimal_point[OF parse_nat_digit[OF d(1)], of k] by simp
    also have "real k + real d1 / 10 ^ length [digit_char d1] = x"
      unfolding val using True by simp
    finally show ?thesis .
  next
    case False
    have "parse_decimal (float_repr x) =
        Some (real k + real (10 * d1 + d2) / 10 ^ length [digit_char d1, digit_char d2])"
      unfolding repr using False parse_decimal_point[OF parse_nat_two_digits[OF d], of k] by simp
    also have "real k + real (10 * d1 + d2) / 10 ^ length [digit_char d1, digit_char d2] = x"
      unfolding val by simp
    finally show ?thesis .
  qed
qed

lemma scan_plain:
  assumes "\<forall>c\<in>set s. c \<noteq> CHR '','' \<and> c \<noteq> CHR 0x0A"
      and "d = CHR '','' \<or> d = CHR 0x0A"
  shows "scan Plain f r rs (s @ d # rest) = after_field d (rev f @ s) r rs rest"
  using assms(1)
proof (induction s arbitrary: f)
  case Nil
  with assms(2) show ?case by (auto simp: after_field_def)
next
  case (Cons c s)
  then have "scan Plain f r rs ((c # s) @ d # rest) = scan Plain (c # f) r rs (s @ d # rest)"
    by simp
  also have "\<dots> = after_field d (rev (c # f) @ s) r rs rest"
    using Cons by simp
  finally show ?case by simp
qed

lemma scan_quoted:
  assumes "d = CHR '','' \<or> d = CHR 0x0A"
  shows "scan Quoted f r rs (escape_quotes s @ CHR 0x22 # d # rest)
           = after_field d (rev f @ s) r rs rest"
proof (induction s arbitrary: f)
  case Nil
  with assms show ?case by (auto simp: escape_quotes_def after_field_def)
next
  case (Cons c s)
  have "scan Quoted f r rs (escape_quotes (c # s) @ CHR 0x22 # d # rest)
          = scan Quoted (c # f) r rs (escape_quotes s @ CHR 0x22 # d # rest)"
    by (simp add: escape_quotes_def)
  also have "\<dots> = after_field d (rev (c # f) @ s) r rs rest"
    by (rule Cons.IH)
  finally show ?case by simp
qed

lemma scan_field:
  assumes "d = CHR '','' \<or> d = CHR 0x0A"
  shows "scan FieldStart f r rs (csv_field s @ d # rest) = after_field d s r rs rest"
proof (cases "needs_quotes s")
  case True
  then have "csv_field s = CHR 0x22 # escape_quotes s @ [CHR 0x22]"
    by (simp add: csv_field_def escape_quotes_def)
  then have "scan FieldStart f r rs (csv_field s @ d # rest)
               = scan Quoted [] r rs (escape_quotes s @ CHR 0x22 # d # rest)"
    by simp
  also have "\<dots> = after_field d (rev [] @ s) r rs rest"
    by (rule scan_quoted[OF assms])
  finally show ?thesis by simp
next
  case False
  then have plain: "\<forall>c\<in>set s. c \<noteq> CHR '','' \<and> c \<noteq> CHR 0x22 \<and> c \<noteq> CHR 0x0A"
    and fld: "csv_field s = s"
    by (auto simp: needs_quotes_def csv_field_def list_ex_iff)
  show ?thesis
  proof (cases s)
    case Nil
    with fld assms show ?thesis by (auto simp: after_field_def)
  next
    case (Cons c cs)
    with plain have c: "c \<noteq> CHR '','' \<and> c \<noteq> CHR 0x22 \<and> c \<noteq> CHR 0x0A"
      and cs: "\<forall>c\<in>set cs. c \<noteq> CHR '','' \<and> c \<noteq> CHR 0x0A"
      by auto
    from c have "scan FieldStart f r rs ((c # cs) @ d # rest) = scan Plain [c] r rs (cs @ d # rest)"
      by simp
    also have "\<dots> = after_field d (rev [c] @ cs) r rs rest"
      by (rule scan_plain[OF cs assms])
    finally show ?thesis using fld Cons by simp
  qed
qed

lemma scan_fields:
  "scan FieldStart f r rs (join_fields (map csv_field (x # xs)) @ CHR 0x0A # rest)
     = scan FieldStart [] [] (rev (rev (x # xs) @ r) # rs) rest"
proof (induction xs arbitrary: x r f)
  case Nil
  show ?case
    using scan_field[of "CHR 0x0A" f r rs x rest] by (simp add: after_field_def)
next
  case (Cons y ys)
  have "scan FieldStart f r rs (join_fields (map csv_field (x # y # ys)) @ CHR 0x0A # rest)
          = scan FieldStart f r rs
              (csv_field x @ CHR '','' # join_fields (map csv_field (y # ys)) @ CHR 0x0A # rest)"
    by simp
  also have "\<dots> = scan FieldStart [] (x # r) rs
                      (join_fields (map csv_field (y # ys)) @ CHR 0x0A # rest)"
    using scan_field[of "CHR '',''" f r rs x] by (simp add: after_field_def)
  also have "\<dots> = scan FieldStart [] [] (rev (rev (y # ys) @ x # r) # rs) rest"
    by (rule Cons.IH)
  finally show ?case by simp
qed

lemma scan_line:
  assumes "fs \<noteq> []" and "fs \<noteq> [[]]"
  shows "scan FieldStart f [] rs (csv_line fs @ rest) = scan FieldStart [] [] (fs # rs) rest"
proof -
  from assms(1) obtain x xs where fs: "fs = x # xs" by (cases fs) auto
  with assms(2) have "csv_line fs @ rest = join_fields (map csv_field (x # xs)) @ CHR 0x0A # rest"
    by (auto simp: csv_line_def)
  then show ?thesis using scan_fields[of f "[]" rs x xs rest] fs by simp
qed

lemma scan_lines:
  assumes "\<forall>fs\<in>set ls. fs \<noteq> [] \<and> fs \<noteq> [[]]"
  shows "scan FieldStart f [] rs (concat (map csv_line ls)) = Some (rev rs @ ls)"
  using assms
proof (induction ls arbitrary: f rs)
  case Nil
  then show ?case by simp
next
  case (Cons l ls)
  then have l: "l \<noteq> []" "l \<noteq> [[]]" and rest: "\<forall>fs\<in>set ls. fs \<noteq> [] \<and> fs \<noteq> [[]]"
    by simp_all
  have "scan FieldStart f [] rs (concat (map csv_line (l # ls)))
          = scan FieldStart f [] rs (csv_line l @ concat (map csv_line ls))"
    by simp
  also have "\<dots> = scan FieldStart [] [] (l # rs) (concat (map csv_line ls))"
    by (rule scan_line[OF l])
  also have "\<dots> = Some (rev (l # rs) @ ls)"
    by (rule Cons.IH[OF rest])
  finally show ?case by simp
qed

lemma to_csv_text_history:
  assumes "hs \<noteq> []"
  shows "to_csv_text (DataFrame hs) = concat (map csv_line (export_header # map row_texts hs))"
proof -
  from assms obtain h hs' where "hs = h # hs'" by (cases hs) auto
  then have "columns (DataFrame hs) = export_header"
    by (simp add: DataFrame_def entry_items_def export_header_def)
  moreover have "map (\<lambda>r. csv_line (map cell_text r)) (rows (DataFrame hs))
                   = map csv_line (map row_texts hs)"
    by (simp add: DataFrame_def entry_items_def row_texts_def)
  ultimately show ?thesis by (simp add: to_csv_text_def)
qed

lemma parse_csv_export:
  assumes "hs \<noteq> []"
  shows "parse_csv (to_csv_text (DataFrame hs)) = Some (export_header # map row_texts hs)"
proof -
  have "\<forall>fs\<in>set (export_header # map row_texts hs). fs \<noteq> [] \<and> fs \<noteq> [[]]"
    by (auto simp: export_header_def row_texts_def)
  from scan_lines[OF this, of "[]" "[]"] show ?thesis
    by (simp add: parse_csv_def to_csv_text_history[OF assms])
qed

lemma entry_of_row_texts:
  assumes "exportable h"
  shows "entry_of_row (row_texts h) = Some h"
proof -
  from assms have "parse_decimal (float_repr (history_entry.confidence h))
                     = Some (history_entry.confidence h)"
    by (intro parse_decimal_float_repr) (simp_all only: exportable_def)
  moreover have "parse_nat (show_int (int (face h))) = Some (face h)"
    by (simp add: show_int_def parse_nat_show_nat)
  ultimately show ?thesis
    by (simp add: entry_of_row_def row_texts_def)
qed

lemma home_tab_export:
  assumes "history w \<noteq> []"
  shows "files (home_tab True w) = (files w)(export_path \<mapsto> to_csv_text (DataFrame (history w)))"
    and "history (home_tab True w) = history w"
  using assms
  by (simp_all add: home_tab_def Let_def st_event_def to_csv_def export_path_def)

lemma demo_export_text: "to_csv_text (DataFrame demo_history) = demo_csv"
proof -
  have "float_repr 82 = ''82.0''" "float_repr 91 = ''91.0''"
    by (simp_all add: float_repr_def Let_def show_nat.simps digit_char_def)
  then show ?thesis
    by (simp add: to_csv_text_def DataFrame_def demo_history_def entry_items_def csv_line_def
        csv_field_def needs_quotes_def show_int_def show_nat.simps digit_char_def demo_csv_def)
qed

lemma exportable_py_round2:
  assumes "0 \<le> y" and "y \<le> 100"
  shows "exportable \<lparr>timestamp = ts, face = n, emotion = m, confidence = py_round2 y\<rparr>"
proof -
  define k where "k = round_half_even (y * 100)"
  have v: "py_round2 y = of_int k / 100" by (simp add: py_round2_def k_def)
  from assms(1) have "0 \<le> \<lfloor>y * 100\<rfloor>" by simp
  from order_trans[OF this round_half_even_bounds(1)] have k0: "0 \<le> k" by (simp only: k_def)
  from assms(2) have "y * 100 \<le> of_int 10000" by simp
  from round_half_even_bounds(2)[OF this] have k1: "k \<le> 10000" by (simp add: k_def)
  have "py_round2 y * 100 = of_int k" by (simp add: v)
  then have h: "of_int \<lfloor>py_round2 y * 100\<rfloor> = py_round2 y * 100" by (simp only: floor_of_int)
  from k0 have a: "0 \<le> py_round2 y" by (simp add: v)
  from k1 have "py_round2 y \<le> 100" by (simp add: v)
  then have b: "py_round2 y < 10 ^ 16" by simp
  from a b h show ?thesis unfolding exportable_def by simp
qed

lemma max_from_mem: "max_from best xs \<in> set (best # xs)"
  by (induction xs arbitrary: best) (auto split: if_splits)

lemma py_max_mem: "py_max es = Inr mp \<Longrightarrow> mp \<in> set es"
  using max_from_mem by (cases es) auto

lemma analyze_loop_exportable:
  "analyze_loop e thr xs cards fr w = (res, w') \<Longrightarrow> 0 \<le> thr \<Longrightarrow>
   \<forall>ir\<in>set xs. \<forall>mp\<in>set (emotions (snd ir)). snd mp \<le> 1 \<Longrightarrow>
   \<forall>h\<in>set (history w). exportable h \<Longrightarrow>
   \<forall>h\<in>set (history w'). exportable h"
proof (induction xs arbitrary: cards fr w)
  case Nil
  then show ?case by simp
next
  case (Cons a xs)
  obtain i r where a: "a = (i, r)" by (cases a)
  from Cons.prems(3) have rest: "\<forall>ir\<in>set xs. \<forall>mp\<in>set (emotions (snd ir)). snd mp \<le> 1"
    by simp
  show ?case
  proof (cases "py_max (emotions r)")
    case (Inl x)
    with Cons.prems a show ?thesis by simp
  next
    case (Inr mp)
    obtain mood p where mp: "mp = (mood, p)" by (cases mp)
    from py_max_mem[OF Inr] Cons.prems(3) a mp have p1: "p \<le> 1" by auto
    show ?thesis
    proof (cases "float_mul p 100 < thr")
      case True
      with Cons.prems(1) a Inr mp
      have "analyze_loop e thr xs cards fr w = (res, w')" by simp
      from Cons.IH[OF this Cons.prems(2) rest Cons.prems(4)] show ?thesis .
    next
      case False
      define h where "h = \<lparr>timestamp = strftime (calendar e (clock (tick e w))), face = i + 1,
                              emotion = mood, confidence = py_round2 (float_mul p 100)\<rparr>"
      define w2 where "w2 = (tick e w)\<lparr>history := history (tick e w) @ [h]\<rparr>"
      from False Cons.prems(1) a Inr mp obtain cards2 fr2 where
        run: "analyze_loop e thr xs cards2 fr2 w2 = (res, w')"
        by (simp add: Let_def datetime_now_def h_def w2_def split: prod.splits)
      from False Cons.prems(2) have "0 \<le> float_mul p 100" by linarith
      moreover from p1 have "float_mul p 100 \<le> 100" by (rule float_mul_le_100)
      ultimately have "exportable h" unfolding h_def by (rule exportable_py_round2)
      with Cons.prems(4) have "\<forall>h\<in>set (history w2). exportable h"
        by (simp add: w2_def tick_def)
      from Cons.IH[OF run Cons.prems(2) rest this] show ?thesis .
    qed
  qed
qed

lemma analyze_emotions_exportable:
  assumes "analyze_emotions e image_bytes fr threshold w = (res, w')" and "0 \<le> threshold"
      and "\<forall>img ds. detect_emotions e img = Inr ds \<longrightarrow>
             (\<forall>d\<in>set ds. \<forall>mp\<in>set (emotions d). snd mp \<le> 1)"
      and "\<forall>h\<in>set (history w). exportable h"
  shows "\<forall>h\<in>set (history w'). exportable h"
proof (cases "detect_emotions e (imdecode e image_bytes)")
  case (Inl x)
  with assms(1,4) show ?thesis by (simp add: analyze_emotions_def)
next
  case (Inr results)
  with assms(1) have run: "analyze_loop e threshold (enumerate 0 results) [] fr w = (res, w')"
    by (simp add: analyze_emotions_def)
  from assms(3) Inr have "\<forall>d\<in>set results. \<forall>mp\<in>set (emotions d). snd mp \<le> 1" by blast
  then have "\<forall>ir\<in>set (enumerate 0 results). \<forall>mp\<in>set (emotions (snd ir)). snd mp \<le> 1"
    by (auto simp: in_set_enumerate_eq)
  from analyze_loop_exportable[OF run assms(2) this assms(4)] show ?thesis .
qed

section \<open>One happy face\<close>

text \<open>
  Claim C5. When the detector returns exactly one face with the scores happy 0.82,
  sad 0.10, neutral 0.08 and the threshold is the default 50, \<^verbatim>\<open>analyze_emotions\<close> returns
  exactly one card, with emotion "happy", confidence 82 and the message of "happy", and
  appends exactly one history entry, with face 1, emotion "happy" and confidence 82.
\<close>

theorem analyze_single_happy_face:
  assumes "detect_emotions e (imdecode e image_bytes) =
             Inr [\<lparr>box = b, emotions = [(''happy'', 82 / 100), (''sad'', 10 / 100),
                                        (''neutral'', 8 / 100)]\<rparr>]"
  shows "\<exists>fr' w'.
           analyze_emotions e image_bytes fr default_threshold w =
             (Inr ([\<lparr>index = 1, emotion = ''happy'', confidence = 82,
                     message = [CHR 0xF0, CHR 0x9F, CHR 0x98, CHR 0x8A] @
                               '' You're radiating joy!''\<rparr>], fr'), w') \<and>
           history w' = history w @
             [\<lparr>timestamp = strftime (calendar e (clock w + elapse e (ticks w))), face = 1,
               emotion = ''happy'', confidence = 82\<rparr>]"
  using assms
  by (simp add: analyze_emotions_def default_threshold_def datetime_now_def tick_def Let_def
      get_message_def messages_def py_round2_8200 enumerate_eq_zip float_mul_def
      split: option.splits)

theorem analyze_single_happy_face_witness:
  "\<exists>fr' w'.
     analyze_emotions (demo_env [happy_face]) ''jpeg'' None default_threshold demo_world =
       (Inr ([\<lparr>index = 1, emotion = ''happy'', confidence = 82,
               message = [CHR 0xF0, CHR 0x9F, CHR 0x98, CHR 0x8A] @
                         '' You're radiating joy!''\<rparr>], fr'), w') \<and>
     history w' =
       [\<lparr>timestamp = ''2026-10-12 14:03:05'', face = 1, emotion = ''happy'', confidence = 82\<rparr>]"
proof -
  have d: "detect_emotions (demo_env [happy_face]) (imdecode (demo_env [happy_face]) ''jpeg'') =
             Inr [\<lparr>box = (10, 10, 50, 50), emotions = [(''happy'', 82 / 100), (''sad'', 10 / 100),
                                        (''neutral'', 8 / 100)]\<rparr>]"
    by (simp add: demo_env_def happy_face_def)
  have t: "strftime (calendar (demo_env [happy_face])
             (clock demo_world + elapse (demo_env [happy_face]) (ticks demo_world)))
           = ''2026-10-12 14:03:05''"
    by (simp add: demo_env_def demo_world_def strftime_def pad2_def digit_char_def
        show_nat.simps)
  from analyze_single_happy_face[OF d, of None demo_world] t show ?thesis
    by (simp add: demo_world_def)
qed

section \<open>The threshold\<close>

text \<open>
  Claim C1. For every detector output in which each face has scores, and every threshold,
  \<^verbatim>\<open>analyze_emotions\<close> returns, and it emits a card for a detected face if and only if the
  confidence of the face's top emotion is at least the threshold. The confidence is what
  the script compares: the double \<^verbatim>\<open>conf * 100\<close>, the greatest probability times 100
  rounded to the nearest double. Every card has a confidence of at least the threshold;
  the history gains exactly one entry per card, with the card's face number; and the
  frame gets the rectangle and the label of the faces that have a card, in order, and
  nothing else. So a face below the threshold produces no card, no annotation and no
  history entry.
\<close>

theorem analyze_emotions_threshold:
  assumes "detect_emotions e (imdecode e image_bytes) = Inr results"
      and "\<forall>d\<in>set results. emotions d \<noteq> []"
  shows "\<exists>cards fr' w'.
           analyze_emotions e image_bytes fr threshold w = (Inr (cards, fr'), w') \<and>
           (\<forall>i<length results. \<forall>mood p. py_max (emotions (results ! i)) = Inr (mood, p) \<longrightarrow>
              ((\<exists>c\<in>set cards. index c = i + 1) \<longleftrightarrow> threshold \<le> float_mul p 100)) \<and>
           (\<forall>c\<in>set cards. threshold \<le> face_card.confidence c) \<and>
           (\<exists>new. history w' = history w @ new \<and> map face new = map index cards) \<and>
           fr' = draw_on (concat (map (\<lambda>c. annotation (results ! (index c - 1)) c) cards)) fr"
proof -
  from analyze_emotions_total[OF assms] obtain cards fr' w' where
    run: "analyze_emotions e image_bytes fr threshold w = (Inr (cards, fr'), w')"
    by blast
  note facts = analyze_emotions_Inr[OF assms(1) run]
  have cards: "set cards = {c. \<exists>ir\<in>set (enumerate 0 results). face_card_of threshold ir = Some c}"
    using facts(1) by (auto simp: in_set_map_filter)
  have a: "\<forall>i<length results. \<forall>mood p. py_max (emotions (results ! i)) = Inr (mood, p) \<longrightarrow>
            ((\<exists>c\<in>set cards. index c = i + 1) \<longleftrightarrow> threshold \<le> float_mul p 100)"
  proof (intro allI impI)
    fix i mood p
    assume i: "i < length results" and top: "py_max (emotions (results ! i)) = Inr (mood, p)"
    show "(\<exists>c\<in>set cards. index c = i + 1) \<longleftrightarrow> threshold \<le> float_mul p 100"
    proof
      assume "\<exists>c\<in>set cards. index c = i + 1"
      then obtain c j where "j < length results" "face_card_of threshold (j, results ! j) = Some c"
        "index c = i + 1"
        by (auto simp: cards in_set_enumerate_eq)
      with top show "threshold \<le> float_mul p 100"
        by (auto simp: face_card_of_Some)
    next
      assume "threshold \<le> float_mul p 100"
      with top have "face_card_of threshold (i, results ! i) =
          Some \<lparr>index = i + 1, emotion = mood, confidence = float_mul p 100,
                message = get_message mood\<rparr>"
        by (simp add: face_card_of_Some)
      moreover from i have "(i, results ! i) \<in> set (enumerate 0 results)"
        by (simp add: in_set_enumerate_eq)
      ultimately have "\<lparr>index = i + 1, emotion = mood, confidence = float_mul p 100,
                        message = get_message mood\<rparr> \<in> set cards"
        unfolding cards by blast
      then show "\<exists>c\<in>set cards. index c = i + 1"
        by (rule bexI[rotated]) simp
    qed
  qed
  have b: "\<forall>c\<in>set cards. threshold \<le> face_card.confidence c"
    by (auto simp: cards face_card_of_Some)
  have "length (readings e c k n) = n" for c k n
    by (induction n arbitrary: c k) simp_all
  then have "map face (map2 (entry_of e) (readings e (clock w) (ticks w) (length cards)) cards)
               = map index cards"
    by (auto simp: entry_of_def intro!: nth_equalityI)
  with facts(3) have c: "\<exists>new. history w' = history w @ new \<and> map face new = map index cards"
    by blast
  from run a b c facts(2) show ?thesis by blast
qed

text \<open>
  Two runs. The three sample faces at the default threshold: the first and the third
  get a card. And the face whose top score is the double \<^verbatim>\<open>0.58\<close> at the threshold 58: the
  product \<^verbatim>\<open>0.58 * 100\<close> is the double \<^verbatim>\<open>57.99999999999999\<close>, below the threshold, so the face
  is dropped and the frame and the world stay as they were.
\<close>

theorem analyze_emotions_threshold_witness:
  "analyze_emotions (demo_env three_faces) ''jpeg'' (Some demo_frame) default_threshold demo_world
     = (Inr (demo_cards, Some demo_annotated),
        demo_world\<lparr>history := demo_history, clock := 186250000, ticks := 2\<rparr>) \<and>
   (\<exists>c\<in>set demo_cards. index c = 1) \<and>
   \<not> (\<exists>c\<in>set demo_cards. index c = 2) \<and>
   (\<exists>c\<in>set demo_cards. index c = 3) \<and>
   map face demo_history = map index demo_cards \<and>
   Some demo_annotated =
     draw_on (annotation happy_face (demo_cards ! 0) @ annotation sad_face (demo_cards ! 1))
       (Some demo_frame) \<and>
   py_max (emotions borderline_face) = Inr (''happy'', 5224175567749775 / 9007199254740992) \<and>
   float_mul (5224175567749775 / 9007199254740992) 100 = 8162774324609023 / 140737488355328 \<and>
   (8162774324609023 / 140737488355328 :: real) < 58 \<and>
   analyze_emotions (demo_env [borderline_face]) ''jpeg'' (Some demo_frame) 58 demo_world
     = (Inr ([], Some demo_frame), demo_world)"
proof -
  have ne: "\<forall>d\<in>set three_faces. emotions d \<noteq> []"
    by (simp add: three_faces_def happy_face_def calm_face_def sad_face_def)
  from analyze_emotions_threshold[OF demo_detect ne, of "Some demo_frame" default_threshold
      demo_world]
  have inst: "(\<forall>i<length three_faces. \<forall>mood p.
        py_max (emotions (three_faces ! i)) = Inr (mood, p) \<longrightarrow>
        ((\<exists>c\<in>set demo_cards. index c = i + 1) \<longleftrightarrow> default_threshold \<le> float_mul p 100)) \<and>
      (\<exists>new. demo_history = history demo_world @ new \<and> map face new = map index demo_cards) \<and>
      Some demo_annotated =
        draw_on (concat (map (\<lambda>c. annotation (three_faces ! (index c - 1)) c) demo_cards))
          (Some demo_frame)"
    by (simp add: demo_run)
  then have iff: "\<And>i mood p. i < 3 \<Longrightarrow> py_max (emotions (three_faces ! i)) = Inr (mood, p) \<Longrightarrow>
      (\<exists>c\<in>set demo_cards. index c = i + 1) \<longleftrightarrow> default_threshold \<le> float_mul p 100"
    by (simp add: three_faces_def)
  from inst have hist: "\<exists>new. demo_history = history demo_world @ new \<and>
                 map face new = map index demo_cards"
    and ann: "Some demo_annotated =
       draw_on (concat (map (\<lambda>c. annotation (three_faces ! (index c - 1)) c) demo_cards))
         (Some demo_frame)"
    by simp_all
  have "\<exists>c\<in>set demo_cards. index c = 1"
    using iff[of 0 "''happy''" "82 / 100"] py_max_demo(1)
    by (simp add: three_faces_def default_threshold_def float_mul_def)
  moreover have "\<not> (\<exists>c\<in>set demo_cards. index c = 2)"
    using iff[of 1 "''neutral''" "40 / 100"] py_max_demo(2)
    by (simp add: three_faces_def default_threshold_def numeral_2_eq_2 float_mul_def)
  moreover have "\<exists>c\<in>set demo_cards. index c = 3"
    using iff[of 2 "''sad''" "91 / 100"] py_max_demo(3)
    by (simp add: three_faces_def default_threshold_def numeral_3_eq_3 float_mul_def)
  moreover from hist have "map face demo_history = map index demo_cards"
    by (simp add: demo_world_def)
  moreover from ann have "Some demo_annotated =
     draw_on (annotation happy_face (demo_cards ! 0) @ annotation sad_face (demo_cards ! 1))
       (Some demo_frame)"
    by (simp add: demo_cards_def three_faces_def)
  ultimately show ?thesis
    using demo_run py_max_borderline float_mul_borderline borderline_run by simp
qed

section \<open>The number of cards\<close>

text \<open>
  Claim C2. For every analysis call on a detector output in which each face has scores,
  the call returns, the number of cards is at most the number of detections, and the
  two are equal if and only if the top emotion of every detection has a confidence (the
  double \<^verbatim>\<open>conf * 100\<close>) of at least the threshold.
\<close>

theorem analyze_emotions_card_count:
  assumes "detect_emotions e (imdecode e image_bytes) = Inr results"
      and "\<forall>d\<in>set results. emotions d \<noteq> []"
  shows "\<exists>cards fr' w'.
           analyze_emotions e image_bytes fr threshold w = (Inr (cards, fr'), w') \<and>
           length cards \<le> length results \<and>
           (length cards = length results \<longleftrightarrow>
              (\<forall>r\<in>set results. \<exists>mood p. py_max (emotions r) = Inr (mood, p) \<and>
                                               threshold \<le> float_mul p 100))"
proof -
  from analyze_emotions_total[OF assms] obtain cards fr' w' where
    run: "analyze_emotions e image_bytes fr threshold w = (Inr (cards, fr'), w')"
    by blast
  note facts = analyze_emotions_Inr[OF assms(1) run]
  have le: "length cards \<le> length results"
    using facts(1) length_cards_le[of "face_card_of threshold" "enumerate 0 results"] by simp
  have "length cards = length results \<longleftrightarrow>
          (\<forall>ir\<in>set (enumerate 0 results). face_card_of threshold ir \<noteq> None)"
    using facts(1) length_cards_eq[of "face_card_of threshold" "enumerate 0 results"] by simp
  also have "\<dots> \<longleftrightarrow> (\<forall>i<length results. face_card_of threshold (i, results ! i) \<noteq> None)"
    by (auto simp: in_set_enumerate_eq)
  also have "\<dots> \<longleftrightarrow> (\<forall>i<length results. \<exists>mood p.
                 py_max (emotions (results ! i)) = Inr (mood, p) \<and> threshold \<le> float_mul p 100)"
    by (simp add: face_card_of_Some)
  also have "\<dots> \<longleftrightarrow> (\<forall>r\<in>set results. \<exists>mood p.
                 py_max (emotions r) = Inr (mood, p) \<and> threshold \<le> float_mul p 100)"
    by (simp add: all_set_conv_all_nth)
  finally have "length cards = length results \<longleftrightarrow>
      (\<forall>r\<in>set results. \<exists>mood p. py_max (emotions r) = Inr (mood, p) \<and>
                                       threshold \<le> float_mul p 100)" .
  with run le show ?thesis by blast
qed

text \<open>
  Two runs. The three sample faces at the default threshold give two cards. And the face
  whose top score is the double \<^verbatim>\<open>0.35\<close> at the threshold 35 gives one card for one
  detection: the double \<^verbatim>\<open>0.35\<close> is less than \<open>35 / 100\<close>, but the product \<^verbatim>\<open>0.35 * 100\<close> is
  the double \<^verbatim>\<open>35.0\<close>, which meets the threshold.
\<close>

theorem analyze_emotions_card_count_witness:
  "analyze_emotions (demo_env three_faces) ''jpeg'' (Some demo_frame) default_threshold demo_world
     = (Inr (demo_cards, Some demo_annotated),
        demo_world\<lparr>history := demo_history, clock := 186250000, ticks := 2\<rparr>) \<and>
   length demo_cards \<le> length three_faces \<and>
   length demo_cards \<noteq> length three_faces \<and>
   \<not> (\<forall>r\<in>set three_faces. \<exists>mood p.
         py_max (emotions r) = Inr (mood, p) \<and> default_threshold \<le> float_mul p 100) \<and>
   (\<exists>fr' w'. analyze_emotions (demo_env [mild_face]) ''jpeg'' (Some demo_frame) 35 demo_world
               = (Inr (mild_cards, fr'), w')) \<and>
   length mild_cards = length [mild_face] \<and>
   py_max (emotions mild_face) = Inr (''neutral'', 3152519739159347 / 9007199254740992) \<and>
   (3152519739159347 / 9007199254740992 :: real) * 100 < 35 \<and>
   float_mul (3152519739159347 / 9007199254740992) 100 = 35"
proof -
  have ne: "\<forall>d\<in>set three_faces. emotions d \<noteq> []"
    by (simp add: three_faces_def happy_face_def calm_face_def sad_face_def)
  from analyze_emotions_card_count[OF demo_detect ne, of "Some demo_frame" default_threshold
      demo_world]
  have iff: "length demo_cards = length three_faces \<longleftrightarrow>
      (\<forall>r\<in>set three_faces. \<exists>mood p.
         py_max (emotions r) = Inr (mood, p) \<and> default_threshold \<le> float_mul p 100)"
    by (simp add: demo_run)
  have "length demo_cards \<noteq> length three_faces"
    by (simp add: demo_cards_def three_faces_def)
  with iff have "\<not> (\<forall>r\<in>set three_faces. \<exists>mood p.
         py_max (emotions r) = Inr (mood, p) \<and> default_threshold \<le> float_mul p 100)"
    by (simp only: simp_thms)
  moreover have "length demo_cards \<le> length three_faces"
    by (simp add: demo_cards_def three_faces_def)
  moreover have "length demo_cards \<noteq> length three_faces"
    by (simp add: demo_cards_def three_faces_def)
  moreover have "length mild_cards = length [mild_face]"
    by (simp add: mild_cards_def)
  moreover have "(3152519739159347 / 9007199254740992 :: real) * 100 < 35"
    by simp
  ultimately show ?thesis
    using demo_run mild_run py_max_mild float_mul_mild by simp
qed

section \<open>Face numbers\<close>

text \<open>
  Claim C9. For every detector output in which each face has scores, the call returns,
  and the index of each card, and the face number of the history entry that goes with
  it, is the 1-based position of the face in the detector's output: the indices of one
  call are the positions of the faces that meet the threshold, in order, so they are
  strictly increasing, each card carries the top emotion of the detection at its index
  and, as its confidence, the double \<^verbatim>\<open>conf * 100\<close> of that emotion's score, and the cards
  that remain are not renumbered. The indices may skip values: a call can return the
  indices 1 and 3.
\<close>

theorem analyze_emotions_original_indices:
  "(\<forall>e image_bytes fr threshold w results.
      detect_emotions e (imdecode e image_bytes) = Inr results \<longrightarrow>
      (\<forall>d\<in>set results. emotions d \<noteq> []) \<longrightarrow>
      (\<exists>cards fr' w'.
        analyze_emotions e image_bytes fr threshold w = (Inr (cards, fr'), w') \<and>
        map index cards =
          map Suc (filter (\<lambda>i. \<exists>mood p. py_max (emotions (results ! i)) = Inr (mood, p) \<and>
                                        threshold \<le> float_mul p 100) [0..<length results]) \<and>
        (\<forall>c\<in>set cards. 1 \<le> index c \<and> index c \<le> length results \<and>
           (\<exists>p. py_max (emotions (results ! (index c - 1))) = Inr (face_card.emotion c, p) \<and>
                face_card.confidence c = float_mul p 100)) \<and>
        sorted_wrt (<) (map index cards) \<and>
        (\<exists>new. history w' = history w @ new \<and> map face new = map index cards))) \<and>
   (\<exists>e image_bytes fr threshold w cards fr' w'.
      analyze_emotions e image_bytes fr threshold w = (Inr (cards, fr'), w') \<and>
      map index cards = [1, 3])"
proof (intro conjI allI impI)
  fix e :: env and image_bytes :: bytes and fr :: "frame option" and threshold :: real
    and w :: world and results :: "detection list"
  assume det: "detect_emotions e (imdecode e image_bytes) = Inr results"
    and ne: "\<forall>d\<in>set results. emotions d \<noteq> []"
  from analyze_emotions_total[OF det ne] obtain cards fr' w' where
    run: "analyze_emotions e image_bytes fr threshold w = (Inr (cards, fr'), w')"
    by blast
  note facts = analyze_emotions_Inr[OF det run]
  have a: "map index cards =
          map Suc (filter (\<lambda>i. \<exists>mood p. py_max (emotions (results ! i)) = Inr (mood, p) \<and>
                                        threshold \<le> float_mul p 100) [0..<length results])"
    using facts(1) by (simp add: index_cards_positions)
  have b: "\<forall>c\<in>set cards. 1 \<le> index c \<and> index c \<le> length results \<and>
           (\<exists>p. py_max (emotions (results ! (index c - 1))) = Inr (face_card.emotion c, p) \<and>
                face_card.confidence c = float_mul p 100)"
  proof
    fix c assume "c \<in> set cards"
    with facts(1) obtain i where "i < length results"
      "face_card_of threshold (i, results ! i) = Some c"
      by (auto simp: in_set_map_filter in_set_enumerate_eq)
    then show "1 \<le> index c \<and> index c \<le> length results \<and>
           (\<exists>p. py_max (emotions (results ! (index c - 1))) = Inr (face_card.emotion c, p) \<and>
                face_card.confidence c = float_mul p 100)"
      by (auto simp: face_card_of_Some)
  qed
  have c: "sorted_wrt (<) (map index cards)"
    using facts(1) by (simp add: sorted_index_cards)
  have "length (readings e c k n) = n" for c k n
    by (induction n arbitrary: c k) simp_all
  then have "map face (map2 (entry_of e) (readings e (clock w) (ticks w) (length cards)) cards)
               = map index cards"
    by (auto simp: entry_of_def intro!: nth_equalityI)
  with facts(3) have d: "\<exists>new. history w' = history w @ new \<and> map face new = map index cards"
    by blast
  from run a b c d
  show "\<exists>cards fr' w'.
        analyze_emotions e image_bytes fr threshold w = (Inr (cards, fr'), w') \<and>
        map index cards =
          map Suc (filter (\<lambda>i. \<exists>mood p. py_max (emotions (results ! i)) = Inr (mood, p) \<and>
                                        threshold \<le> float_mul p 100) [0..<length results]) \<and>
        (\<forall>c\<in>set cards. 1 \<le> index c \<and> index c \<le> length results \<and>
           (\<exists>p. py_max (emotions (results ! (index c - 1))) = Inr (face_card.emotion c, p) \<and>
                face_card.confidence c = float_mul p 100)) \<and>
        sorted_wrt (<) (map index cards) \<and>
        (\<exists>new. history w' = history w @ new \<and> map face new = map index cards)"
    by blast
next
  have idx: "map index demo_cards = [1, 3]" by (simp add: demo_cards_def)
  show "\<exists>e image_bytes fr threshold w cards fr' w'.
      analyze_emotions e image_bytes fr threshold w = (Inr (cards, fr'), w') \<and>
      map index cards = [1, 3]"
    by (intro exI conjI, rule demo_run, rule idx)
qed

theorem analyze_emotions_original_indices_witness:
  "analyze_emotions (demo_env three_faces) ''jpeg'' (Some demo_frame) default_threshold demo_world
     = (Inr (demo_cards, Some demo_annotated),
        demo_world\<lparr>history := demo_history, clock := 186250000, ticks := 2\<rparr>) \<and>
   map index demo_cards = [1, 3] \<and>
   sorted_wrt (<) (map index demo_cards) \<and>
   map face demo_history = map index demo_cards \<and>
   map face_card.confidence demo_cards = [float_mul (82 / 100) 100, float_mul (91 / 100) 100]"
proof -
  have ne: "\<forall>d\<in>set three_faces. emotions d \<noteq> []"
    by (simp add: three_faces_def happy_face_def calm_face_def sad_face_def)
  from analyze_emotions_original_indices demo_detect ne
  have "\<exists>cards fr' w'.
        analyze_emotions (demo_env three_faces) ''jpeg'' (Some demo_frame) default_threshold
          demo_world = (Inr (cards, fr'), w') \<and>
        sorted_wrt (<) (map index cards) \<and>
        (\<exists>new. history w' = history demo_world @ new \<and> map face new = map index cards)"
    by blast
  then have "sorted_wrt (<) (map index demo_cards)"
    and "\<exists>new. demo_history = history demo_world @ new \<and> map face new = map index demo_cards"
    by (simp_all add: demo_run)
  then show ?thesis
    using demo_run by (simp add: demo_world_def demo_cards_def float_mul_def)
qed

section \<open>Timestamps\<close>

text \<open>
  Claim C10. Every history entry that \<^verbatim>\<open>analyze_emotions\<close> appends, whether the call returns
  or raises, has as its timestamp the text \<^verbatim>\<open>strftime("%Y-%m-%d %H:%M:%S")\<close> of a reading of
  the clock taken when its face is processed, one reading per qualifying face in order;
  for a clock whose years have four digits the text has the one shape
  \<^verbatim>\<open>dddd-dd-dd dd:dd:dd\<close>, with seconds and nothing finer, as in
  \<^verbatim>\<open>2026-10-12 14:03:05\<close>.
\<close>

theorem history_timestamp_format:
  assumes "analyze_emotions e image_bytes fr threshold w = (res, w')"
      and "\<forall>t. 1000 \<le> year (calendar e t) \<and> year (calendar e t) \<le> 9999"
  shows "\<exists>new. history w' = history w @ new \<and>
           map timestamp new =
             map (\<lambda>t. strftime (calendar e t)) (readings e (clock w) (ticks w) (length new)) \<and>
           (\<forall>h\<in>set new. timestamp_format (timestamp h))"
proof (cases "detect_emotions e (imdecode e image_bytes)")
  case (Inl x)
  with assms(1) have "w' = w" by (simp add: analyze_emotions_def)
  then show ?thesis by simp
next
  case (Inr results)
  with assms(1) have "analyze_loop e threshold (enumerate 0 results) [] fr w = (res, w')"
    by (simp add: analyze_emotions_def)
  from analyze_loop_world[OF this] obtain new where new: "history w' = history w @ new"
    "map timestamp new =
       map (\<lambda>t. strftime (calendar e t)) (readings e (clock w) (ticks w) (length new))"
    by blast
  have "\<forall>h\<in>set new. timestamp_format (timestamp h)"
  proof
    fix h assume "h \<in> set new"
    then have "timestamp h \<in> set (map timestamp new)" by simp
    with new(2) obtain t where "timestamp h = strftime (calendar e t)" by auto
    with assms(2) show "timestamp_format (timestamp h)"
      by (simp add: timestamp_format_strftime)
  qed
  with new show ?thesis by blast
qed

theorem history_timestamp_format_witness:
  "analyze_emotions (demo_env three_faces) ''jpeg'' (Some demo_frame) default_threshold demo_world
     = (Inr (demo_cards, Some demo_annotated),
        demo_world\<lparr>history := demo_history, clock := 186250000, ticks := 2\<rparr>) \<and>
   map timestamp demo_history = [''2026-10-12 14:03:05'', ''2026-10-12 14:03:06''] \<and>
   map timestamp demo_history =
     map (\<lambda>t. strftime (calendar (demo_env three_faces) t)) [185000000, 186250000] \<and>
   timestamp_format ''2026-10-12 14:03:05'' \<and> timestamp_format ''2026-10-12 14:03:06''"
proof -
  have y: "\<forall>t. 1000 \<le> year (calendar (demo_env three_faces) t) \<and>
               year (calendar (demo_env three_faces) t) \<le> 9999"
    by (simp add: demo_env_def)
  from history_timestamp_format[OF demo_run y] obtain new where
    new: "new = demo_history"
      "map timestamp new = map (\<lambda>t. strftime (calendar (demo_env three_faces) t))
         (readings (demo_env three_faces) (clock demo_world) (ticks demo_world) (length new))"
      "\<forall>h\<in>set new. timestamp_format (timestamp h)"
    by (auto simp: demo_world_def)
  have r: "readings (demo_env three_faces) (clock demo_world) (ticks demo_world) (length demo_history)
             = [185000000, 186250000]"
    by (simp add: demo_history_def demo_env_def demo_world_def numeral_2_eq_2)
  have "map timestamp demo_history = [''2026-10-12 14:03:05'', ''2026-10-12 14:03:06'']"
    by (simp add: demo_history_def)
  moreover from new r have "map timestamp demo_history =
     map (\<lambda>t. strftime (calendar (demo_env three_faces) t)) [185000000, 186250000]"
    by simp
  moreover from new(1,3)
  have "timestamp_format ''2026-10-12 14:03:05'' \<and> timestamp_format ''2026-10-12 14:03:06''"
    by (simp add: demo_history_def)
  ultimately show ?thesis using demo_run by simp
qed

section \<open>The confidence bar\<close>

text \<open>
  Claim C6 says that the width of the rendered confidence bar, in percent, is the card's
  confidence rounded to the nearest percent. The script writes \<^verbatim>\<open>int(c['confidence'])\<close>,
  which cuts the decimals off: a confidence of 82.6 gives a bar of 82 percent, and the
  nearest percent is 83.
\<close>

theorem bar_width_not_nearest:
  "bar_width \<lparr>index = 1, emotion = ''happy'', confidence = 826 / 10,
              message = get_message ''happy''\<rparr> = 82 \<and>
   round (826 / 10 :: real) = 83"
  by (simp add: bar_width_def py_int_def round_def)

text \<open>
  Claim C6, amended. For every card with a confidence that is not negative,
  \<^verbatim>\<open>display_cards\<close> renders a bar whose width in percent is the confidence cut down to a
  whole percent; the width is the confidence rounded to the nearest percent exactly
  when the decimals of the confidence are below one half.
\<close>

theorem bar_width_truncates:
  assumes "c \<in> set cards" and "0 \<le> face_card.confidence c"
  shows "Markdown (confidence_bar c) True \<in> set (trace (display_cards cards w)) \<and>
         (\<exists>pre post. confidence_bar c =
            pre @ ''width:'' @ show_int \<lfloor>face_card.confidence c\<rfloor> @ ''%;padding:6px;'' @ post) \<and>
         bar_width c = \<lfloor>face_card.confidence c\<rfloor> \<and>
         (bar_width c = round (face_card.confidence c) \<longleftrightarrow> frac (face_card.confidence c) < 1 / 2)"
proof -
  from assms(1) have "Markdown (confidence_bar c) True \<in> set (trace (display_cards cards w))"
    by (auto simp: display_cards_trace card_events_def)
  moreover from assms(2) have w: "bar_width c = \<lfloor>face_card.confidence c\<rfloor>"
    by (simp add: bar_width_def py_int_def)
  moreover have "\<exists>pre post. confidence_bar c =
            pre @ ''width:'' @ show_int \<lfloor>face_card.confidence c\<rfloor> @ ''%;padding:6px;'' @ post"
    unfolding confidence_bar_def w
    by (rule exI[of _ "[CHR 0x0A] @ replicate 12 (CHR '' '') @
     ''<div style='background:#eee;border-radius:6px;overflow:hidden;width:100%;'>'' @
     [CHR 0x0A] @ replicate 14 (CHR '' '') @
     ''<div style='background:#90caf9;''"], rule exI[of _ "''color:black;text-align:center;'>'' @
     [CHR 0x0A] @ replicate 16 (CHR '' '') @
     ''Confidence: '' @ fmt_1f (face_card.confidence c) @ ''%'' @
     [CHR 0x0A] @ replicate 14 (CHR '' '') @ ''</div>'' @
     [CHR 0x0A] @ replicate 12 (CHR '' '') @ ''</div>'' @
     [CHR 0x0A] @ replicate 12 (CHR '' '')"]) simp
  moreover have "\<lfloor>face_card.confidence c\<rfloor> = round (face_card.confidence c)
                   \<longleftrightarrow> frac (face_card.confidence c) < 1 / 2"
  proof -
    define x where "x = face_card.confidence c"
    have "round x = \<lfloor>x\<rfloor> + (if frac x < 1 / 2 then 0 else 1)"
      unfolding round_def frac_def by (auto simp: floor_eq_iff) linarith+
    then show ?thesis unfolding x_def[symmetric] by auto
  qed
  ultimately show ?thesis by simp
qed

theorem bar_width_truncates_witness:
  "keen_card \<in> set [keen_card] \<and> 0 \<le> face_card.confidence keen_card \<and>
   Markdown (confidence_bar keen_card) True \<in> set (trace (display_cards [keen_card] demo_world)) \<and>
   bar_width keen_card = 82 \<and> bar_width keen_card \<noteq> round (face_card.confidence keen_card)"
proof -
  have a: "keen_card \<in> set [keen_card]" and b: "0 \<le> face_card.confidence keen_card"
    by (simp_all add: keen_card_def)
  have f: "\<lfloor>face_card.confidence keen_card\<rfloor> = 82" "\<not> frac (face_card.confidence keen_card) < 1 / 2"
    by (simp_all add: keen_card_def frac_def)
  from bar_width_truncates[OF a b, of demo_world] f a b show ?thesis by simp
qed

section \<open>The Live loop\<close>




section \<open>The camera\<close>

text \<open>
  Claim C8 says that the camera is released exactly once on every exit path of the
  Capture and Live tabs. The Live tab has one more exit path: an exception raised while
  a frame is analysed leaves the loop and the script, and \<^verbatim>\<open>cap.release()\<close> is not reached.
  With a detector that fails, the tab opens the camera, reads once, and never releases.
\<close>

theorem live_exception_skips_release:
  "live_tab failing_env True demo_world =
     (Uncaught (LibraryError ''detector failed''),
      demo_world\<lparr>clock := 186250000, ticks := 2, reads := 1,
                  trace := [Subheader live_title, CamOpen, CamRead True]\<rparr>) \<and>
   count_list [Subheader live_title, CamOpen, CamRead True] CamRelease = 0"
  by (simp add: live_tab_def live_title_def failing_env_def demo_env_def demo_world_def
      live_loop.simps time_time_def tick_def Let_def cap_read_def analyze_emotions_def
      st_event_def)

text \<open>
  Claim C8, amended. The Capture tab opens the camera, sleeps one second, reads once and
  releases at once, whatever the read returned and whatever happens afterwards: one
  open, one release, nothing else on the device. The Live tab, when it ends on the
  budget or on a failed read, has opened once and releases once, after the last read.
  In both, no open happens while the device is held (\<open>cam_run\<close> succeeds) and the
  device is free at the end.
\<close>

theorem camera_released_once:
  "(\<forall>e w out w'. capture_tab e True w = (out, w') \<longrightarrow>
      (\<exists>evs rest. trace w' = trace w @ evs \<and>
         evs = [Subheader capture_title, CamOpen, Sleep 1, CamRead (camera e (reads w) \<noteq> None),
                CamRelease] @ rest \<and>
         device_events rest = [] \<and>
         count_list evs CamOpen = 1 \<and> count_list evs CamRelease = 1 \<and>
         cam_run False evs = Some False)) \<and>
   (\<forall>e w w'. live_tab e True w = (Done, w') \<longrightarrow>
      (\<exists>evs n ex. trace w' = trace w @ evs \<and>
         device_events evs = [CamOpen] @ concat (replicate n [CamRead True, Sleep 5]) @
                               exit_events ex @ [CamRelease] \<and>
         (ex = BudgetExpired \<or> ex = ReadFailed) \<and>
         count_list evs CamOpen = 1 \<and> count_list evs CamRelease = 1 \<and>
         cam_run False evs = Some False))"
proof (intro conjI allI impI)
  fix e w out w'
  assume "capture_tab e True w = (out, w')"
  from capture_tab_events[OF this] obtain rest where
    tr: "trace w' = trace w @ [Subheader capture_title, CamOpen, Sleep 1,
           CamRead (camera e (reads w) \<noteq> None), CamRelease] @ rest"
    and rest: "device_events rest = []"
    by blast
  let ?evs = "[Subheader capture_title, CamOpen, Sleep 1,
           CamRead (camera e (reads w) \<noteq> None), CamRelease] @ rest"
  have dev: "device_events ?evs = [CamOpen, Sleep 1, CamRead (camera e (reads w) \<noteq> None), CamRelease]"
    using rest by (simp add: is_device_event_def)
  have "count_list ?evs CamOpen = count_list (device_events ?evs) CamOpen"
    by (rule count_list_device_events[symmetric]) (simp add: is_device_event_def)
  then have c1: "count_list ?evs CamOpen = 1" unfolding dev by simp
  have "count_list ?evs CamRelease = count_list (device_events ?evs) CamRelease"
    by (rule count_list_device_events[symmetric]) (simp add: is_device_event_def)
  then have c2: "count_list ?evs CamRelease = 1" unfolding dev by simp
  have "cam_run False ?evs = cam_run False (device_events ?evs)"
    by (rule cam_run_device_events[symmetric])
  then have c3: "cam_run False ?evs = Some False" unfolding dev by simp
  from tr rest c1 c2 c3
  show "\<exists>evs rest. trace w' = trace w @ evs \<and>
         evs = [Subheader capture_title, CamOpen, Sleep 1, CamRead (camera e (reads w) \<noteq> None),
                CamRelease] @ rest \<and>
         device_events rest = [] \<and>
         count_list evs CamOpen = 1 \<and> count_list evs CamRelease = 1 \<and>
         cam_run False evs = Some False"
    by blast
next
  fix e w w'
  assume "live_tab e True w = (Done, w')"
  from live_tab_events[OF this] obtain n ex evs where tr: "trace w' = trace w @ evs"
    and dev0: "device_events evs = [CamOpen] @ concat (replicate n [CamRead True, Sleep 5]) @
             exit_events ex @ (case ex of Raised x \<Rightarrow> [] | _ \<Rightarrow> [CamRelease])"
    and out: "Done = (case ex of Raised x \<Rightarrow> Uncaught x | _ \<Rightarrow> Done)"
    by blast
  from out have ex: "ex = BudgetExpired \<or> ex = ReadFailed" by (cases ex) simp_all
  with dev0 have dev: "device_events evs = [CamOpen] @ concat (replicate n [CamRead True, Sleep 5]) @
             exit_events ex @ [CamRelease]"
    by auto
  have "count_list evs CamOpen = count_list (device_events evs) CamOpen"
    by (rule count_list_device_events[symmetric]) (simp add: is_device_event_def)
  with ex have c1: "count_list evs CamOpen = 1"
    unfolding dev by (auto simp: count_list_iterations)
  have "count_list evs CamRelease = count_list (device_events evs) CamRelease"
    by (rule count_list_device_events[symmetric]) (simp add: is_device_event_def)
  with ex have c2: "count_list evs CamRelease = 1"
    unfolding dev by (auto simp: count_list_iterations)
  have "cam_run False evs = cam_run False (device_events evs)"
    by (rule cam_run_device_events[symmetric])
  with ex have c3: "cam_run False evs = Some False"
    unfolding dev by (auto simp: cam_run_iterations)
  from tr dev ex c1 c2 c3
  show "\<exists>evs n ex. trace w' = trace w @ evs \<and>
         device_events evs = [CamOpen] @ concat (replicate n [CamRead True, Sleep 5]) @
                               exit_events ex @ [CamRelease] \<and>
         (ex = BudgetExpired \<or> ex = ReadFailed) \<and>
         count_list evs CamOpen = 1 \<and> count_list evs CamRelease = 1 \<and>
         cam_run False evs = Some False"
    by blast
qed

theorem camera_released_once_witness:
  "capture_tab (demo_env []) True demo_world =
     (Done,
      demo_world\<lparr>clock := 186000000, ticks := 1, reads := 1,
                  trace := [Subheader capture_title, CamOpen, Sleep 1, CamRead True, CamRelease,
                            Image (Some \<lparr>pixels = ''frame'', drawn = []\<rparr>)]\<rparr>) \<and>
   count_list [Subheader capture_title, CamOpen, Sleep 1, CamRead True, CamRelease,
               Image (Some \<lparr>pixels = ''frame'', drawn = []\<rparr>)] CamRelease = 1 \<and>
   live_tab still_env True demo_world =
     (Done,
      demo_world\<lparr>clock := 288750000, ticks := 4, reads := 1,
                  trace := [Subheader live_title, CamOpen, CamRead True,
                            Image (Some \<lparr>pixels = ''frame'', drawn = []\<rparr>), Sleep 5,
                            CamRelease, DestroyAllWindows, Success live_ended]\<rparr>) \<and>
   count_list [Subheader live_title, CamOpen, CamRead True,
               Image (Some \<lparr>pixels = ''frame'', drawn = []\<rparr>), Sleep 5,
               CamRelease, DestroyAllWindows, Success live_ended] CamRelease = 1 \<and>
   cam_run False [Subheader live_title, CamOpen, CamRead True,
               Image (Some \<lparr>pixels = ''frame'', drawn = []\<rparr>), Sleep 5,
               CamRelease, DestroyAllWindows, Success live_ended] = Some False"
proof -
  from camera_released_once capture_run
  obtain evs where "trace (demo_world\<lparr>clock := 186000000, ticks := 1, reads := 1,
                  trace := [Subheader capture_title, CamOpen, Sleep 1, CamRead True, CamRelease,
                            Image (Some \<lparr>pixels = ''frame'', drawn = []\<rparr>)]\<rparr>)
       = trace demo_world @ evs" "count_list evs CamRelease = 1"
    by blast
  then have a: "count_list [Subheader capture_title, CamOpen, Sleep 1, CamRead True, CamRelease,
               Image (Some \<lparr>pixels = ''frame'', drawn = []\<rparr>)] CamRelease = 1"
    by (simp add: demo_world_def)
  from camera_released_once live_run
  obtain evs where "trace (demo_world\<lparr>clock := 288750000, ticks := 4, reads := 1,
                  trace := [Subheader live_title, CamOpen, CamRead True,
                            Image (Some \<lparr>pixels = ''frame'', drawn = []\<rparr>), Sleep 5,
                            CamRelease, DestroyAllWindows, Success live_ended]\<rparr>)
       = trace demo_world @ evs" "count_list evs CamRelease = 1" "cam_run False evs = Some False"
    by blast
  then have b: "count_list [Subheader live_title, CamOpen, CamRead True,
               Image (Some \<lparr>pixels = ''frame'', drawn = []\<rparr>), Sleep 5,
               CamRelease, DestroyAllWindows, Success live_ended] CamRelease = 1"
    "cam_run False [Subheader live_title, CamOpen, CamRead True,
               Image (Some \<lparr>pixels = ''frame'', drawn = []\<rparr>), Sleep 5,
               CamRelease, DestroyAllWindows, Success live_ended] = Some False"
    by (simp_all add: demo_world_def)
  from a b capture_run live_run show ?thesis by simp
qed

section \<open>The export\<close>

text \<open>
  Claim C4. For every session history that is not empty and whose confidences are
  rounded ones, pressing the export button writes the file
  \<^verbatim>\<open>emotion_history.csv\<close>, whatever it held before, and leaves every other file and the
  history alone. Read back, the file has the header \<^verbatim>\<open>timestamp,face,emotion,confidence\<close>
  and as many lines as the history has entries, and reading the lines gives the
  entries of the history, in their order, with the same timestamp, face number,
  emotion and confidence. (With an empty history the button is not shown.)
\<close>

theorem export_roundtrip:
  assumes "history w \<noteq> []" and "\<forall>h\<in>set (history w). exportable h"
  shows "\<exists>content rows.
           files (home_tab True w) ''emotion_history.csv'' = Some content \<and>
           (\<forall>p. p \<noteq> ''emotion_history.csv'' \<longrightarrow> files (home_tab True w) p = files w p) \<and>
           history (home_tab True w) = history w \<and>
           parse_csv content =
             Some ([''timestamp'', ''face'', ''emotion'', ''confidence''] # rows) \<and>
           length rows = length (history w) \<and>
           map entry_of_row rows = map Some (history w)"
proof -
  let ?content = "to_csv_text (DataFrame (history w))"
  let ?rows = "map row_texts (history w)"
  have "files (home_tab True w) ''emotion_history.csv'' = Some ?content"
    by (simp add: home_tab_export(1)[OF assms(1)] export_path_def)
  moreover have "\<forall>p. p \<noteq> ''emotion_history.csv'' \<longrightarrow> files (home_tab True w) p = files w p"
    by (simp add: home_tab_export(1)[OF assms(1)] export_path_def)
  moreover have "parse_csv ?content =
      Some ([''timestamp'', ''face'', ''emotion'', ''confidence''] # ?rows)"
    using parse_csv_export[OF assms(1)] by (simp add: export_header_def)
  moreover have "map entry_of_row ?rows = map Some (history w)"
    using assms(2) by (simp add: entry_of_row_texts)
  ultimately show ?thesis
    using home_tab_export(2)[OF assms(1)] by (intro exI[of _ ?content] exI[of _ ?rows]) simp
qed

theorem export_roundtrip_witness:
  "files (home_tab True logged_world) ''emotion_history.csv'' = Some demo_csv \<and>
   parse_csv demo_csv =
     Some [[''timestamp'', ''face'', ''emotion'', ''confidence''],
           [''2026-10-12 14:03:05'', ''1'', ''happy'', ''82.0''],
           [''2026-10-12 14:03:06'', ''3'', ''sad'', ''91.0'']] \<and>
   map entry_of_row [[''2026-10-12 14:03:05'', ''1'', ''happy'', ''82.0''],
                     [''2026-10-12 14:03:06'', ''3'', ''sad'', ''91.0'']]
     = map Some demo_history"
proof -
  have h: "history logged_world \<noteq> []"
    by (simp add: logged_world_def demo_history_def)
  have x: "\<forall>h\<in>set (history logged_world). exportable h"
    by (simp add: logged_world_def demo_history_def exportable_def)
  have f: "files (home_tab True logged_world) ''emotion_history.csv'' = Some demo_csv"
    using home_tab_export(1)[OF h]
    by (simp add: export_path_def logged_world_def demo_export_text)
  from export_roundtrip[OF h x] f obtain rows where
    "parse_csv demo_csv = Some ([''timestamp'', ''face'', ''emotion'', ''confidence''] # rows)"
    "map entry_of_row rows = map Some (history logged_world)"
    by auto
  moreover have "parse_csv demo_csv =
     Some [[''timestamp'', ''face'', ''emotion'', ''confidence''],
           [''2026-10-12 14:03:05'', ''1'', ''happy'', ''82.0''],
           [''2026-10-12 14:03:06'', ''3'', ''sad'', ''91.0'']]"
    by (simp add: parse_csv_def demo_csv_def)
  ultimately show ?thesis using f by (simp add: logged_world_def)
qed

end
